theory Spec2Isabelle
  imports Complex_Main "HOL-Library.AList"
begin

section \<open>The training loop of LIFT (training/train.py) as a shallow embedding\<close>

text \<open>
  The source is one Python module: the class \<open>AverageMeter\<close>, the helpers
  \<open>unwrap_model\<close>, \<open>backward\<close> and \<open>during_training_data_preprocess\<close>, and the
  function \<open>train_one_epoch\<close>. The loop talks to external collaborators (the model, the
  teacher model, the loss, the optimizer, the gradient scaler, the scheduler, the clock,
  the file system). Calls to them are recorded, in program order, in a list of events;
  the values they return are parameters of the development (the record \<open>env\<close>).
  Exceptions raised by the loop's own operations (a missing dictionary key, a division by
  zero, an unbound local name) are values of \<open>py_error\<close>; exceptions raised inside a
  collaborator are outside the embedding. Python floats are real numbers here.
\<close>

subsection \<open>Python values: errors, dictionaries, strings\<close>

datatype py_error =
    KeyError string
  | ZeroDivisionError
  | UnboundLocalError string
  | IndexError
  | TypeError string
  | ValueError
  | AssertionError
  | AttributeError string

text \<open>
  A Python \<open>dict\<close> keeps insertion order and has no duplicate keys: an association list.
  \<open>d[k] = v\<close> is \<open>AList.update\<close> (in place for a key that is there, at the end for a new
  one), \<open>d.pop(k, None)\<close> is \<open>AList.delete\<close>, \<open>k in d\<close> and \<open>d[k]\<close> are \<open>map_of\<close>.
\<close>

type_synonym ('k, 'v) dict = "('k \<times> 'v) list"

definition dict_contains :: "('k, 'v) dict \<Rightarrow> 'k \<Rightarrow> bool" where
  "dict_contains d k = (map_of d k \<noteq> None)"

definition dict_setitem :: "('k, 'v) dict \<Rightarrow> 'k \<Rightarrow> 'v \<Rightarrow> ('k, 'v) dict" where
  "dict_setitem d k v = AList.update k v d"

definition dict_pop_default :: "('k, 'v) dict \<Rightarrow> 'k \<Rightarrow> ('k, 'v) dict" where
  "dict_pop_default d k = AList.delete k d"

definition dict_update :: "('k, 'v) dict \<Rightarrow> ('k, 'v) dict \<Rightarrow> ('k, 'v) dict" where
  "dict_update d e = fold (\<lambda>(k, v) acc. dict_setitem acc k v) e d"

definition dict_values :: "('k, 'v) dict \<Rightarrow> 'v list" where
  "dict_values d = map snd d"

definition dict_keys :: "('k, 'v) dict \<Rightarrow> 'k list" where
  "dict_keys d = map fst d"

text \<open>\<open>needle in haystack\<close> on Python strings: a contiguous occurrence.\<close>

fun starts_with :: "string \<Rightarrow> string \<Rightarrow> bool" where
  "starts_with [] s = True"
| "starts_with (c # cs) [] = False"
| "starts_with (c # cs) (d # ds) = (c = d \<and> starts_with cs ds)"

fun str_contains :: "string \<Rightarrow> string \<Rightarrow> bool" where
  "str_contains needle [] = (needle = [])"
| "str_contains needle (c # cs) = (starts_with needle (c # cs) \<or> str_contains needle cs)"

text \<open>\<open>str(n)\<close> for an integer, as the f-string \<open>f"step_{completed_step}.pt"\<close> prints it.\<close>

definition digit_char :: "nat \<Rightarrow> char" where
  "digit_char d = char_of (48 + d)"

function str_nat :: "nat \<Rightarrow> string" where
  "str_nat n = (if n < 10 then [digit_char n] else str_nat (n div 10) @ [digit_char (n mod 10)])"
  by pat_completeness auto
termination
  by (relation "measure id") auto

declare str_nat.simps [simp del]

definition str_int :: "int \<Rightarrow> string" where
  "str_int i = (if i < 0 then CHR ''-'' # str_nat (nat (- i)) else str_nat (nat i))"

text \<open>\<open>os.path.join(a, b)\<close> on POSIX, for two components.\<close>

definition path_join :: "string \<Rightarrow> string \<Rightarrow> string" where
  "path_join a b =
     (if starts_with ''/'' b then b
      else if a = [] \<or> last a = CHR ''/'' then a @ b
      else a @ ''/'' @ b)"

subsection \<open>AverageMeter\<close>

text \<open>
  \<^verbatim>\<open>
  class AverageMeter(object):
      def reset(self):
          self.val = 0; self.avg = 0; self.sum = 0; self.count = 0
      def update(self, val, n=1):
          self.val = val
          self.sum += val * n
          self.count += n
          self.avg = self.sum / self.count
  \<close>
  The division raises \<open>ZeroDivisionError\<close> when the count is zero after the update.
\<close>

record AverageMeter =
  m_val :: real
  m_avg :: real
  m_sum :: real
  m_count :: int

definition reset :: AverageMeter where
  "reset = \<lparr>m_val = 0, m_avg = 0, m_sum = 0, m_count = 0\<rparr>"

definition update :: "AverageMeter \<Rightarrow> real \<Rightarrow> int \<Rightarrow> py_error + AverageMeter" where
  "update m v n =
     (let s = m_sum m + v * of_int n; c = m_count m + n
      in if c = 0 then Inl ZeroDivisionError
         else Inr \<lparr>m_val = v, m_avg = s / of_int c, m_sum = s, m_count = c\<rparr>)"

subsection \<open>The model object and \<open>unwrap_model\<close>\<close>

text \<open>
  A model object has, or has not, an attribute \<open>module\<close> (the wrapped model of a
  distributed wrapper) and an attribute \<open>logit_scale\<close>; \<open>'p\<close> stands for the rest of its
  parameters.
\<close>

datatype 'p py_model =
  PyModel (module_attr: "'p py_model option") (logit_scale_attr: "real option") (params: 'p)

definition unwrap_model :: "'p py_model \<Rightarrow> 'p py_model" where
  "unwrap_model model = (case module_attr model of Some inner \<Rightarrow> inner | None \<Rightarrow> model)"

text \<open>\<open>Tensor.clamp_(lo, hi)\<close> on a scalar: \<open>min(max(x, lo), hi)\<close>.\<close>

definition clamp :: "real \<Rightarrow> real \<Rightarrow> real \<Rightarrow> real" where
  "clamp lo hi x = min (max x lo) hi"

text \<open>
  \<open>unwrap_model(model).logit_scale.clamp_(lo, hi)\<close> when the attribute is there: the
  tensor is changed in place, inside the wrapper when there is one.
\<close>

definition clamp_unwrapped_logit_scale :: "real \<Rightarrow> real \<Rightarrow> 'p py_model \<Rightarrow> 'p py_model" where
  "clamp_unwrapped_logit_scale lo hi model =
     (case module_attr model of
        Some inner \<Rightarrow>
          (case logit_scale_attr inner of
             Some v \<Rightarrow> PyModel (Some (PyModel (module_attr inner) (Some (clamp lo hi v)) (params inner)))
                         (logit_scale_attr model) (params model)
           | None \<Rightarrow> model)
      | None \<Rightarrow>
          (case logit_scale_attr model of
             Some v \<Rightarrow> PyModel None (Some (clamp lo hi v)) (params model)
           | None \<Rightarrow> model))"

subsection \<open>Configuration, data source, collaborators\<close>

text \<open>
  The options of \<open>args\<close> that the loop reads. \<open>model_name\<close> is \<open>args.model\<close> (the name of
  the architecture); \<open>text_embed_dim\<close> is falsy when it is \<open>None\<close> or \<open>0\<close>.
\<close>

record args =
  accum_freq :: int
  skip_scheduler :: bool
  distill :: bool
  model_name :: string
  horovod :: bool
  grad_clip_norm :: "real option"
  log_every_n_steps :: int
  world_size :: int
  batch_size :: int
  wandb :: bool
  save_logs :: bool
  save_every_n_steps :: int
  name :: string
  checkpoint_path :: string
  delete_prev_step_ckpt :: bool
  text_embed_dim :: "int option"

text \<open>
  \<open>data['train'].dataloader\<close>: its attributes \<open>num_batches\<close> and \<open>num_samples\<close>, and the
  batches it yields, each a pair of a tuple of raw images and a tuple of raw texts.
\<close>

record ('ri, 'rt) dataloader =
  num_batches :: int
  num_samples :: int
  batches :: "('ri list \<times> 'rt list) list"

text \<open>
  The calls to collaborators, in the order the loop makes them. A flag on a forward call
  and on the clamp says whether gradient tracking is enabled there (\<open>False\<close> inside
  \<open>torch.no_grad()\<close>); the flag of \<open>Backward\<close> says whether the loss went through
  \<open>scaler.scale\<close>; the flag of \<open>ScalerStep\<close> says whether the call stands inside
  \<open>optimizer.skip_synchronize()\<close>. \<open>ClipGradNorm c\<close> is
  \<open>torch.nn.utils.clip_grad_norm_(model.parameters(), c)\<close> with the L2 norm.
\<close>

record log_message =
  lm_epoch :: int
  lm_num_samples :: int
  lm_samples_per_epoch :: int
  lm_percent_complete :: real
  lm_data_time_avg :: real
  lm_batch_time_avg :: real
  lm_samples_per_second :: real
  lm_samples_per_second_per_gpu :: real
  lm_lr :: real
  lm_logit_scale :: "real option"
  lm_losses :: "(string \<times> real \<times> real) list"

datatype ('i, 'x, 't) event =
    ModelTrain
  | DistModelEval
  | SetEpoch int
  | SchedulerCall int
  | ZeroGrad
  | ModelForward bool "'i list" 'x
  | DistModelForward bool "'i list" 'x
  | LossCall "(string, 't) dict"
  | Backward bool real
  | ClipGradNorm real
  | Synchronize
  | Unscale
  | ScalerStep bool
  | ScalerUpdate
  | OptimizerStep
  | ClampLogitScale bool
  | LoggingInfo log_message
  | TbAddScalar string real int
  | WandbLog "(string, real) dict" int
  | TorchSave string
  | OsRemove string

text \<open>
  What the collaborators return. The model's output depends on the model object, on
  whether gradients are tracked, and on the batch; the update an optimizer step applies
  to the model may depend on everything that happened before it (the events so far), as
  may the learning rate read from the optimizer. \<open>clock n\<close> is what the \<open>n\<close>-th call of
  \<open>time.time()\<close> returns. \<open>has_scaler\<close> and \<open>has_tb_writer\<close> say whether the arguments
  \<open>scaler\<close> and \<open>tb_writer\<close> are not \<open>None\<close>, \<open>wandb_available\<close> whether the import of
  \<open>wandb\<close> succeeded, \<open>is_master\<close> what \<open>is_master(args)\<close> returns.
\<close>

record ('p, 'ri, 'rt, 'i, 'x, 't) env =
  model_call :: "'p py_model \<Rightarrow> bool \<Rightarrow> 'i list \<Rightarrow> 'x \<Rightarrow> (string, 't) dict"
  dist_model_call :: "'i list \<Rightarrow> 'x \<Rightarrow> (string, 't) dict"
  loss_call :: "(string, 't) dict \<Rightarrow> (string, real) dict"
  torch_cat :: "'t list \<Rightarrow> 't"
  item :: "'t \<Rightarrow> real"
  preprocess :: "'ri \<Rightarrow> 'i"
  tokenizer :: "'rt list \<Rightarrow> 'x"
  stack_from_numpy :: "'rt list \<Rightarrow> 'x"
  optimizer_update :: "('i, 'x, 't) event list \<Rightarrow> 'p py_model \<Rightarrow> 'p py_model"
  lr :: "('i, 'x, 't) event list \<Rightarrow> real"
  clock :: "nat \<Rightarrow> real"
  is_master :: bool
  has_scaler :: bool
  has_tb_writer :: bool
  wandb_available :: bool

text \<open>
  A checkpoint file: the fields of \<open>checkpoint_dict\<close>. The optimizer's and the scaler's
  state dictionaries are opaque; \<open>ck_has_scaler\<close> says whether the key \<open>"scaler"\<close> is there.
\<close>

record 'p checkpoint =
  ck_step :: int
  ck_epoch :: int
  ck_name :: string
  ck_state_dict :: "'p py_model"
  ck_has_scaler :: bool

text \<open>
  Everything the loop changes: the model object, the events so far, the files under the
  checkpoint directory, and the local variables that live across iterations (the
  accumulation buffers, the meters, \<open>end\<close>). \<open>ticks\<close> counts the calls of \<open>time.time()\<close>.
\<close>

record ('p, 'i, 'x, 't) state =
  model :: "'p py_model"
  trace :: "('i, 'x, 't) event list"
  files :: "string \<Rightarrow> 'p checkpoint option"
  accum_images :: "'i list list"
  accum_texts :: "'x list"
  accum_features :: "(string, 't list) dict"
  losses_m :: "(string, AverageMeter) dict"
  batch_time_m :: AverageMeter
  data_time_m :: AverageMeter
  ticks :: nat
  end_time :: real

definition emit :: "('i, 'x, 't) event \<Rightarrow> ('p, 'i, 'x, 't) state \<Rightarrow> ('p, 'i, 'x, 't) state" where
  "emit e s = s\<lparr>trace := trace s @ [e]\<rparr>"

definition time_time ::
  "('p, 'ri, 'rt, 'i, 'x, 't) env \<Rightarrow> ('p, 'i, 'x, 't) state \<Rightarrow> real \<times> ('p, 'i, 'x, 't) state" where
  "time_time env s = (clock env (ticks s), s\<lparr>ticks := Suc (ticks s)\<rparr>)"

subsection \<open>\<open>backward\<close> and \<open>during_training_data_preprocess\<close>\<close>

text \<open>
  \<open>sum(losses.values())\<close> starts from the integer \<open>0\<close>: for an empty dictionary it is
  that integer, otherwise a tensor, the sum of the values.
\<close>

datatype py_number = PyInt int | Tensor real

definition py_sum :: "real list \<Rightarrow> py_number" where
  "py_sum vs = (if vs = [] then PyInt 0 else Tensor (sum_list vs))"

text \<open>
  \<^verbatim>\<open>
  def backward(total_loss, scaler):
      if scaler is not None:
          scaler.scale(total_loss).backward()
      else:
          total_loss.backward()
  \<close>
  An integer has no method \<open>backward\<close>, and a scaler does not turn one into a tensor:
  with the integer \<open>0\<close> the call raises and no backward pass is made.
\<close>

definition backward :: "py_number \<Rightarrow> bool \<Rightarrow> py_error + ('i, 'x, 't) event" where
  "backward total_loss scaler =
     (case total_loss of
        PyInt n \<Rightarrow> Inl (AttributeError ''backward'')
      | Tensor v \<Rightarrow> (if scaler then Inr (Backward True v) else Inr (Backward False v)))"

text \<open>
  The images are preprocessed one by one and stacked (a list of samples here, so that
  \<open>len(images)\<close> is its length); the texts go through the tokenizer when
  \<open>args.text_embed_dim\<close> is falsy, and are stacked from their arrays otherwise.
\<close>

definition during_training_data_preprocess ::
  "('p, 'ri, 'rt, 'i, 'x, 't) env \<Rightarrow> args \<Rightarrow> 'ri list \<Rightarrow> 'rt list \<Rightarrow> 'i list \<times> 'x" where
  "during_training_data_preprocess env a tuple_images tuple_texts =
     (let images = map (preprocess env) tuple_images;
          texts = (if text_embed_dim a = None \<or> text_embed_dim a = Some 0
                   then tokenizer env tuple_texts
                   else stack_from_numpy env tuple_texts)
      in (images, texts))"

subsection \<open>The body of the loop, block by block\<close>

text \<open>
  The non-accumulating path (\<open>args.accum_freq == 1\<close>, lines 128 to 145): forward,
  optional teacher forward merged under \<open>dist_\<close>-prefixed keys, loss, total, backward, and
  the clip to norm 1 for a model whose name contains \<open>LIFT\<close>. It returns the state, and
  the locals \<open>losses\<close> and \<open>logit_scale\<close> (\<open>None\<close> when the output has no such key).
  The call \<open>loss(**model_out, output_dict=True)\<close> raises \<open>TypeError\<close> when the output
  has a key \<open>output_dict\<close>; \<open>backward\<close> raises when the loss returned no component.
  (\<open>losses["loss"] = total_loss\<close> stands before \<open>backward\<close> in the source; where
  \<open>backward\<close> raises, the dictionary is lost with the run.)
\<close>

definition forward_backward ::
  "('p, 'ri, 'rt, 'i, 'x, 't) env \<Rightarrow> args \<Rightarrow> 'i list \<Rightarrow> 'x \<Rightarrow> ('p, 'i, 'x, 't) state \<Rightarrow>
     py_error + (('p, 'i, 'x, 't) state \<times> (string, real) dict \<times> 't option)" where
  "forward_backward env a images texts s0 =
     (let model_out = model_call env (model s0) True images texts;
          s1 = emit (ModelForward True images texts) s0;
          logit_scale = map_of model_out ''logit_scale'';
          (model_out, s2) =
            (if distill a then
               (let dist_model_out = dist_model_call env images texts
                in (dict_update model_out (map (\<lambda>(k, v). (''dist_'' @ k, v)) dist_model_out),
                    emit (DistModelForward False images texts) s1))
             else (model_out, s1))
      in if dict_contains model_out ''output_dict'' then Inl (TypeError ''output_dict'')
         else
           let losses = loss_call env model_out;
               s3 = emit (LossCall model_out) s2;
               total_loss = py_sum (dict_values losses)
           in case backward total_loss (has_scaler env) of
                Inl e \<Rightarrow> Inl e
              | Inr backward_call \<Rightarrow>
                  let losses = dict_setitem losses ''loss'' (sum_list (dict_values losses));
                      s4 = emit backward_call s3;
                      s5 = (if str_contains ''LIFT'' (model_name a)
                            then emit (ClipGradNorm 1) s4 else s4)
                  in Inr (s5, losses, logit_scale))"

text \<open>
  The accumulating path, first half (lines 147 to 162): a forward without gradients,
  \<open>logit_scale\<close> and \<open>logit_bias\<close> popped, every other output appended to the list cached
  under its key, the images and texts appended to their caches. The buffers are bound
  only when \<open>args.accum_freq > 1\<close> (line 108), so the first use raises otherwise.
\<close>

definition append_feature :: "string \<times> 't \<Rightarrow> (string, 't list) dict \<Rightarrow> (string, 't list) dict" where
  "append_feature kv acc =
     (case kv of (key, v) \<Rightarrow>
        (case map_of acc key of
           Some cached \<Rightarrow> dict_setitem acc key (cached @ [v])
         | None \<Rightarrow> dict_setitem acc key [v]))"

definition cache_features ::
  "('p, 'ri, 'rt, 'i, 'x, 't) env \<Rightarrow> args \<Rightarrow> 'i list \<Rightarrow> 'x \<Rightarrow> ('p, 'i, 'x, 't) state \<Rightarrow>
     py_error + ('p, 'i, 'x, 't) state" where
  "cache_features env a images texts s0 =
     (let model_out = model_call env (model s0) False images texts;
          s1 = emit (ModelForward False images texts) s0;
          model_out = fold (\<lambda>f d. dict_pop_default d f) [''logit_scale'', ''logit_bias''] model_out
      in if \<not> accum_freq a > 1
         then Inl (UnboundLocalError (if model_out = [] then ''accum_images'' else ''accum_features''))
         else Inr (s1\<lparr>accum_features := fold append_feature model_out (accum_features s1),
                      accum_images := accum_images s1 @ [images],
                      accum_texts := accum_texts s1 @ [texts]\<rparr>))"

text \<open>
  The accumulating path, second half (lines 173 to 195), for one index \<open>j\<close>. The loss
  input of a cached key is
  \<open>torch.cat(accumulated[:j] + [model_out[key]] + accumulated[j + 1:])\<close>.
\<close>

fun build_inputs ::
  "('t list \<Rightarrow> 't) \<Rightarrow> (string, 't list) dict \<Rightarrow> (string, 't) dict \<Rightarrow> nat \<Rightarrow>
     (string \<times> 't list) list \<Rightarrow> (string, 't) dict \<Rightarrow> py_error + (string, 't) dict" where
  "build_inputs cat feats model_out j [] inputs = Inr inputs"
| "build_inputs cat feats model_out j ((key, v) # items) inputs =
     (case map_of feats key of
        None \<Rightarrow> Inl (KeyError key)
      | Some accumulated \<Rightarrow>
          (case map_of model_out key of
             None \<Rightarrow> Inl (KeyError key)
           | Some fresh \<Rightarrow>
               build_inputs cat feats model_out j items
                 (dict_setitem inputs key (cat (take j accumulated @ [fresh] @ drop (j + 1) accumulated)))))"

text \<open>
  \<open>f(**a, **b)\<close>: a key in both is a \<open>TypeError\<close>. In \<open>recompute_one\<close> the call is
  \<open>loss(**inputs, **inputs_no_accum, output_dict=True)\<close>: after the two dictionaries
  are merged, a key \<open>output_dict\<close> among them is a \<open>TypeError\<close> too.
\<close>

definition merge_kwargs :: "(string, 't) dict \<Rightarrow> (string, 't) dict \<Rightarrow> py_error + (string, 't) dict" where
  "merge_kwargs d e =
     (case filter (\<lambda>k. dict_contains d k) (dict_keys e) of
        [] \<Rightarrow> Inr (d @ e)
      | k # ks \<Rightarrow> Inl (TypeError k))"

definition recompute_one ::
  "('p, 'ri, 'rt, 'i, 'x, 't) env \<Rightarrow> nat \<Rightarrow> ('p, 'i, 'x, 't) state \<Rightarrow>
     py_error + (('p, 'i, 'x, 't) state \<times> (string, real) dict \<times> 't \<times> 'i list)" where
  "recompute_one env j s0 =
     (if \<not> j < length (accum_images s0) \<or> \<not> j < length (accum_texts s0) then Inl IndexError
      else
        let images = accum_images s0 ! j;
            texts = accum_texts s0 ! j;
            model_out = model_call env (model s0) True images texts;
            s1 = emit (ModelForward True images texts) s0
        in case map_of model_out ''logit_scale'' of
             None \<Rightarrow> Inl (KeyError ''logit_scale'')
           | Some logit_scale \<Rightarrow>
               let model_out = AList.delete ''logit_scale'' model_out;
                   inputs_no_accum = dict_setitem [] ''logit_scale'' logit_scale;
                   (inputs_no_accum, model_out) =
                     (case map_of model_out ''logit_bias'' of
                        Some logit_bias \<Rightarrow>
                          (dict_setitem inputs_no_accum ''logit_bias'' logit_bias,
                           AList.delete ''logit_bias'' model_out)
                      | None \<Rightarrow> (inputs_no_accum, model_out))
               in case build_inputs (torch_cat env) (accum_features s1) model_out j (accum_features s1) [] of
                    Inl e \<Rightarrow> Inl e
                  | Inr inputs \<Rightarrow>
                      (case merge_kwargs inputs inputs_no_accum of
                         Inl e \<Rightarrow> Inl e
                       | Inr kwargs \<Rightarrow>
                           if dict_contains kwargs ''output_dict'' then Inl (TypeError ''output_dict'')
                           else
                             let losses = loss_call env kwargs;
                                 s2 = emit (LossCall kwargs) s1;
                                 total_loss = py_sum (dict_values losses)
                             in case backward total_loss (has_scaler env) of
                                  Inl e \<Rightarrow> Inl e
                                | Inr backward_call \<Rightarrow>
                                    let losses = dict_setitem losses ''loss'' (sum_list (dict_values losses));
                                        s3 = emit backward_call s2
                                    in Inr (s3, losses, logit_scale, images)))"

text \<open>
  \<open>for j in range(args.accum_freq)\<close>: the locals \<open>losses\<close>, \<open>logit_scale\<close> and \<open>images\<close>
  keep the values of the last index.
\<close>

fun recompute ::
  "('p, 'ri, 'rt, 'i, 'x, 't) env \<Rightarrow> nat list \<Rightarrow> ('p, 'i, 'x, 't) state \<Rightarrow>
     ((string, real) dict \<times> 't \<times> 'i list) option \<Rightarrow>
     py_error + (('p, 'i, 'x, 't) state \<times> ((string, real) dict \<times> 't \<times> 'i list) option)" where
  "recompute env [] s locals = Inr (s, locals)"
| "recompute env (j # js) s locals =
     (case recompute_one env j s of
        Inl e \<Rightarrow> Inl e
      | Inr (s', new_locals) \<Rightarrow> recompute env js s' (Some new_locals))"

text \<open>
  Gradient finalization and the optimizer step (lines 197 to 214). \<open>optimizer.step()\<close> and
  \<open>scaler.step(optimizer)\<close> change the model; what they do to it is the collaborator's.
\<close>

definition apply_step ::
  "('p, 'ri, 'rt, 'i, 'x, 't) env \<Rightarrow> ('i, 'x, 't) event \<Rightarrow> ('p, 'i, 'x, 't) state \<Rightarrow> ('p, 'i, 'x, 't) state" where
  "apply_step env e s = (emit e s)\<lparr>model := optimizer_update env (trace s) (model s)\<rparr>"

definition clip_if_configured :: "args \<Rightarrow> ('p, 'i, 'x, 't) state \<Rightarrow> ('p, 'i, 'x, 't) state" where
  "clip_if_configured a s =
     (case grad_clip_norm a of Some c \<Rightarrow> emit (ClipGradNorm c) s | None \<Rightarrow> s)"

definition finalize ::
  "('p, 'ri, 'rt, 'i, 'x, 't) env \<Rightarrow> args \<Rightarrow> ('p, 'i, 'x, 't) state \<Rightarrow> ('p, 'i, 'x, 't) state" where
  "finalize env a s =
     (if has_scaler env then
        emit ScalerUpdate
          (if horovod a then
             apply_step env (ScalerStep True) (clip_if_configured a (emit Unscale (emit Synchronize s)))
           else
             apply_step env (ScalerStep False)
               (case grad_clip_norm a of
                  Some c \<Rightarrow> emit (ClipGradNorm c) (emit Unscale s)
                | None \<Rightarrow> s))
      else apply_step env OptimizerStep (clip_if_configured a s))"

text \<open>The clamp of \<open>logit_scale\<close> to \<open>[0, ln 100]\<close> inside \<open>torch.no_grad()\<close> (lines 220 to 223).\<close>

definition clamp_logit_scale :: "('p, 'i, 'x, 't) state \<Rightarrow> ('p, 'i, 'x, 't) state" where
  "clamp_logit_scale s =
     (case logit_scale_attr (unwrap_model (model s)) of
        Some v \<Rightarrow> (emit (ClampLogitScale False) s)\<lparr>model := clamp_unwrapped_logit_scale 0 (ln 100) (model s)\<rparr>
      | None \<Rightarrow> s)"

text \<open>
  The progress logger (lines 227 to 284). The formatted text line is represented by the
  numbers it prints. The meters of the loss components are created on first use and
  updated with the batch size as weight; after the emission the two timing meters are
  reset.
\<close>

fun update_losses_m ::
  "(string \<times> real) list \<Rightarrow> int \<Rightarrow> (string, AverageMeter) dict \<Rightarrow> py_error + (string, AverageMeter) dict" where
  "update_losses_m [] n meters = Inr meters"
| "update_losses_m ((key, v) # items) n meters =
     (let meters = (if \<not> dict_contains meters key then dict_setitem meters key reset else meters)
      in case map_of meters key of
           None \<Rightarrow> Inl (KeyError key)
         | Some m \<Rightarrow>
             (case update m v n of
                Inl e \<Rightarrow> Inl e
              | Inr m' \<Rightarrow> update_losses_m items n (dict_setitem meters key m')))"

definition log_progress ::
  "('p, 'ri, 'rt, 'i, 'x, 't) env \<Rightarrow> args \<Rightarrow> ('ri, 'rt) dataloader \<Rightarrow> int \<Rightarrow> int \<Rightarrow> int \<Rightarrow> int \<Rightarrow>
     'i list \<Rightarrow> (string, real) dict \<Rightarrow> 't option \<Rightarrow> ('p, 'i, 'x, 't) state \<Rightarrow>
     py_error + ('p, 'i, 'x, 't) state" where
  "log_progress env a dataloader epoch step i_accum num_batches_per_epoch images losses logit_scale s0 =
     (let batch_count = i_accum + 1 in
      if \<not> is_master env then Inr s0
      else if log_every_n_steps a = 0 then Inl ZeroDivisionError
      else if \<not> (i_accum mod log_every_n_steps a = 0 \<or> batch_count = num_batches_per_epoch) then Inr s0
      else
        let batch_size_local = int (length images);
            n_samples = batch_count * batch_size_local * accum_freq a * world_size a;
            samples_per_epoch = num_samples dataloader
        in if num_batches_per_epoch = 0 then Inl ZeroDivisionError
           else
             let percent_complete = 100 * of_int batch_count / of_int num_batches_per_epoch
             in case update_losses_m losses batch_size_local (losses_m s0) of
                  Inl e \<Rightarrow> Inl e
                | Inr meters \<Rightarrow>
                    let logit_scale_scalar =
                          (case logit_scale of
                             Some t \<Rightarrow> if item env t \<noteq> 0 then Some (item env t) else None
                           | None \<Rightarrow> None)
                    in if m_val (batch_time_m s0) = 0 then Inl ZeroDivisionError
                       else
                         let samples_per_second =
                               of_int (accum_freq a * batch_size a * world_size a) / m_val (batch_time_m s0);
                             samples_per_second_per_gpu =
                               of_int (accum_freq a * batch_size a) / m_val (batch_time_m s0);
                             s1 = emit (LoggingInfo
                                    \<lparr>lm_epoch = epoch, lm_num_samples = n_samples,
                                     lm_samples_per_epoch = samples_per_epoch,
                                     lm_percent_complete = percent_complete,
                                     lm_data_time_avg = m_avg (data_time_m s0),
                                     lm_batch_time_avg = m_avg (batch_time_m s0),
                                     lm_samples_per_second = samples_per_second,
                                     lm_samples_per_second_per_gpu = samples_per_second_per_gpu,
                                     lm_lr = lr env (trace s0),
                                     lm_logit_scale = logit_scale_scalar,
                                     lm_losses = map (\<lambda>(k, m). (k, m_val m, m_avg m)) meters\<rparr>) s0;
                             log_data =
                               [(''data_time'', m_val (data_time_m s0)),
                                (''batch_time'', m_val (batch_time_m s0)),
                                (''samples_per_second'', samples_per_second),
                                (''samples_per_second_per_gpu'', samples_per_second_per_gpu),
                                (''lr'', lr env (trace s0))];
                             log_data =
                               (case logit_scale_scalar of
                                  Some v \<Rightarrow> dict_setitem log_data ''scale'' v
                                | None \<Rightarrow> log_data);
                             log_data = dict_update log_data (map (\<lambda>(k, m). (k, m_val m)) meters);
                             log_data = map (\<lambda>(k, v). (''train/'' @ k, v)) log_data;
                             s2 = (if has_tb_writer env
                                   then fold (\<lambda>(k, v) s. emit (TbAddScalar k v step) s) log_data s1
                                   else s1)
                         in if wandb a \<and> \<not> wandb_available env then Inl AssertionError
                            else
                              let s3 = (if wandb a
                                        then emit (WandbLog (dict_setitem log_data ''step'' (of_int step)) step) s2
                                        else s2)
                              in Inr (s3\<lparr>losses_m := meters, batch_time_m := reset, data_time_m := reset\<rparr>))"

text \<open>
  The checkpoint writer (lines 286 to 308). \<open>torch.save\<close> writes the file named by the
  completed step; the file of one interval earlier is removed when
  \<open>args.delete_prev_step_ckpt\<close> is set and \<open>os.path.exists\<close> finds it.
\<close>

definition checkpoint_file :: "args \<Rightarrow> int \<Rightarrow> string" where
  "checkpoint_file a n = path_join (checkpoint_path a) (''step_'' @ str_int n @ ''.pt'')"

definition save_checkpoint ::
  "('p, 'ri, 'rt, 'i, 'x, 't) env \<Rightarrow> args \<Rightarrow> int \<Rightarrow> int \<Rightarrow> ('p, 'i, 'x, 't) state \<Rightarrow> ('p, 'i, 'x, 't) state" where
  "save_checkpoint env a epoch step s0 =
     (let completed_step = step + 1 in
      if save_logs a \<and> save_every_n_steps a \<noteq> 0 \<and> completed_step mod save_every_n_steps a = 0 then
        let checkpoint_dict =
              \<lparr>ck_step = completed_step, ck_epoch = epoch, ck_name = name a,
               ck_state_dict = model s0, ck_has_scaler = has_scaler env\<rparr>;
            s1 = (emit (TorchSave (checkpoint_file a completed_step)) s0)
                   \<lparr>files := (files s0)(checkpoint_file a completed_step \<mapsto> checkpoint_dict)\<rparr>
        in if delete_prev_step_ckpt a then
             let previous_checkpoint = checkpoint_file a (completed_step - save_every_n_steps a)
             in if files s1 previous_checkpoint \<noteq> None
                then (emit (OsRemove previous_checkpoint) s1)
                       \<lparr>files := (files s1)(previous_checkpoint := None)\<rparr>
                else s1
           else s1
      else s0)"

subsection \<open>One iteration and the epoch\<close>

text \<open>
  Lines 128 to 195: the result is \<open>None\<close> where the loop says \<open>continue\<close>, and the locals
  \<open>losses\<close>, \<open>logit_scale\<close> and \<open>images\<close> otherwise.
\<close>

definition train_step ::
  "('p, 'ri, 'rt, 'i, 'x, 't) env \<Rightarrow> args \<Rightarrow> nat \<Rightarrow> 'i list \<Rightarrow> 'x \<Rightarrow> ('p, 'i, 'x, 't) state \<Rightarrow>
     py_error + (('p, 'i, 'x, 't) state \<times> ((string, real) dict \<times> 't option \<times> 'i list) option)" where
  "train_step env a i images texts s0 =
     (if accum_freq a = 1 then
        (case forward_backward env a images texts s0 of
           Inl e \<Rightarrow> Inl e
         | Inr (s1, losses, logit_scale) \<Rightarrow> Inr (s1, Some (losses, logit_scale, images)))
      else
        (case cache_features env a images texts s0 of
           Inl e \<Rightarrow> Inl e
         | Inr s1 \<Rightarrow>
             if (int i + 1) mod accum_freq a > 0 then Inr (s1, None)
             else
               (case recompute env [0..<nat (accum_freq a)] (emit ZeroGrad s1) None of
                  Inl e \<Rightarrow> Inl e
                | Inr (s2, None) \<Rightarrow> Inl (UnboundLocalError ''losses'')
                | Inr (s2, Some (losses, logit_scale, last_images)) \<Rightarrow>
                    Inr (s2, Some (losses, Some logit_scale, last_images)))))"

text \<open>Lines 197 to 308, reached when the iteration did not \<open>continue\<close>.\<close>

definition finish_step ::
  "('p, 'ri, 'rt, 'i, 'x, 't) env \<Rightarrow> args \<Rightarrow> ('ri, 'rt) dataloader \<Rightarrow> int \<Rightarrow> int \<Rightarrow> int \<Rightarrow> int \<Rightarrow>
     'i list \<Rightarrow> (string, real) dict \<Rightarrow> 't option \<Rightarrow> ('p, 'i, 'x, 't) state \<Rightarrow>
     py_error + ('p, 'i, 'x, 't) state" where
  "finish_step env a dataloader epoch step i_accum num_batches_per_epoch images losses logit_scale s0 =
     (let s1 = finalize env a s0;
          s2 = (if accum_freq a > 1
                then s1\<lparr>accum_images := [], accum_texts := [], accum_features := []\<rparr>
                else s1);
          s3 = clamp_logit_scale s2;
          (t1, s4) = time_time env s3
      in case update (batch_time_m s4) (t1 - end_time s4) 1 of
           Inl e \<Rightarrow> Inl e
         | Inr bm \<Rightarrow>
             let (t2, s5) = time_time env (s4\<lparr>batch_time_m := bm\<rparr>);
                 s6 = s5\<lparr>end_time := t2\<rparr>
             in case log_progress env a dataloader epoch step i_accum num_batches_per_epoch
                       images losses logit_scale s6 of
                  Inl e \<Rightarrow> Inl e
                | Inr s7 \<Rightarrow> Inr (save_checkpoint env a epoch step s7))"

text \<open>The body of \<open>for i, batch in enumerate(dataloader)\<close>.\<close>

definition iteration ::
  "('p, 'ri, 'rt, 'i, 'x, 't) env \<Rightarrow> args \<Rightarrow> ('ri, 'rt) dataloader \<Rightarrow> int \<Rightarrow> int \<Rightarrow>
     nat \<Rightarrow> 'ri list \<times> 'rt list \<Rightarrow> ('p, 'i, 'x, 't) state \<Rightarrow> py_error + ('p, 'i, 'x, 't) state" where
  "iteration env a dataloader epoch num_batches_per_epoch i batch s0 =
     (let i_accum = int i div accum_freq a;
          step = num_batches_per_epoch * epoch + i_accum;
          s1 = (if \<not> skip_scheduler a then emit (SchedulerCall step) s0 else s0);
          (tuple_images, tuple_texts) = batch;
          (images, texts) = during_training_data_preprocess env a tuple_images tuple_texts;
          (t, s2) = time_time env s1
      in case update (data_time_m s2) (t - end_time s2) 1 of
           Inl e \<Rightarrow> Inl e
         | Inr dm \<Rightarrow>
             (case train_step env a i images texts (emit ZeroGrad (s2\<lparr>data_time_m := dm\<rparr>)) of
                Inl e \<Rightarrow> Inl e
              | Inr (s3, None) \<Rightarrow> Inr s3
              | Inr (s3, Some (losses, logit_scale, last_images)) \<Rightarrow>
                  finish_step env a dataloader epoch step i_accum num_batches_per_epoch
                    last_images losses logit_scale s3))"

fun epoch_loop ::
  "('p, 'ri, 'rt, 'i, 'x, 't) env \<Rightarrow> args \<Rightarrow> ('ri, 'rt) dataloader \<Rightarrow> int \<Rightarrow> int \<Rightarrow>
     (nat \<times> ('ri list \<times> 'rt list)) list \<Rightarrow> ('p, 'i, 'x, 't) state \<Rightarrow> py_error + ('p, 'i, 'x, 't) state" where
  "epoch_loop env a dataloader epoch num_batches_per_epoch [] s = Inr s"
| "epoch_loop env a dataloader epoch num_batches_per_epoch ((i, batch) # rest) s =
     (case iteration env a dataloader epoch num_batches_per_epoch i batch s of
        Inl e \<Rightarrow> Inl e
      | Inr s' \<Rightarrow> epoch_loop env a dataloader epoch num_batches_per_epoch rest s')"

text \<open>
  \<open>train_one_epoch\<close>: the set-up (lines 99 to 114) and the loop. The integer division of
  line 105 raises for \<open>accum_freq = 0\<close>; \<open>math.log\<close> of line 106 raises for a non-positive
  argument (its result only sets the width of a printed field).
\<close>

definition train_one_epoch ::
  "('p, 'ri, 'rt, 'i, 'x, 't) env \<Rightarrow> args \<Rightarrow> ('ri, 'rt) dataloader \<Rightarrow> int \<Rightarrow>
     ('p, 'i, 'x, 't) state \<Rightarrow> py_error + ('p, 'i, 'x, 't) state" where
  "train_one_epoch env a dataloader epoch s0 =
     (let s1 = emit ModelTrain s0;
          s2 = (if distill a then emit DistModelEval s1 else s1);
          s3 = emit (SetEpoch epoch) s2
      in if accum_freq a = 0 then Inl ZeroDivisionError
         else
           let num_batches_per_epoch = num_batches dataloader div accum_freq a
           in if num_samples dataloader + 1 \<le> 0 then Inl ValueError
              else
                let s4 = (if accum_freq a > 1
                          then s3\<lparr>accum_images := [], accum_texts := [], accum_features := []\<rparr>
                          else s3);
                    s5 = s4\<lparr>losses_m := [], batch_time_m := reset, data_time_m := reset\<rparr>;
                    (t, s6) = time_time env s5
                in epoch_loop env a dataloader epoch num_batches_per_epoch
                     (zip [0..<length (batches dataloader)] (batches dataloader))
                     (s6\<lparr>end_time := t\<rparr>))"

subsection \<open>Observations on the events\<close>

text \<open>The events a block added: what stands in the trace after the events of the state before.\<close>

definition new_events :: "('p, 'i, 'x, 't) state \<Rightarrow> ('p, 'i, 'x, 't) state \<Rightarrow> ('i, 'x, 't) event list" where
  "new_events s s' = drop (length (trace s)) (trace s')"

text \<open>An optimizer step is \<open>optimizer.step()\<close> or \<open>scaler.step(optimizer)\<close>.\<close>

fun is_step :: "('i, 'x, 't) event \<Rightarrow> bool" where
  "is_step OptimizerStep = True"
| "is_step (ScalerStep b) = True"
| "is_step e = False"

fun is_teacher_forward :: "('i, 'x, 't) event \<Rightarrow> bool" where
  "is_teacher_forward (DistModelForward g images texts) = True"
| "is_teacher_forward e = False"

fun is_clip :: "('i, 'x, 't) event \<Rightarrow> bool" where
  "is_clip (ClipGradNorm c) = True"
| "is_clip e = False"

fun scheduler_arg :: "('i, 'x, 't) event \<Rightarrow> int list" where
  "scheduler_arg (SchedulerCall n) = [n]"
| "scheduler_arg e = []"

fun clip_arg :: "('i, 'x, 't) event \<Rightarrow> real list" where
  "clip_arg (ClipGradNorm c) = [c]"
| "clip_arg e = []"

fun backward_arg :: "('i, 'x, 't) event \<Rightarrow> real list" where
  "backward_arg (Backward scaled v) = [v]"
| "backward_arg e = []"

fun loss_arg :: "('i, 'x, 't) event \<Rightarrow> (string, 't) dict list" where
  "loss_arg (LossCall kwargs) = [kwargs]"
| "loss_arg e = []"

definition num_steps :: "('i, 'x, 't) event list \<Rightarrow> nat" where
  "num_steps tr = length (filter is_step tr)"

definition teacher_forwards :: "('i, 'x, 't) event list \<Rightarrow> ('i, 'x, 't) event list" where
  "teacher_forwards tr = filter is_teacher_forward tr"

definition scheduler_steps :: "('i, 'x, 't) event list \<Rightarrow> int list" where
  "scheduler_steps tr = concat (map scheduler_arg tr)"

definition clip_norms :: "('i, 'x, 't) event list \<Rightarrow> real list" where
  "clip_norms tr = concat (map clip_arg tr)"

definition backward_totals :: "('i, 'x, 't) event list \<Rightarrow> real list" where
  "backward_totals tr = concat (map backward_arg tr)"

definition loss_inputs :: "('i, 'x, 't) event list \<Rightarrow> (string, 't) dict list" where
  "loss_inputs tr = concat (map loss_arg tr)"

text \<open>
  The events of lines 126 to 195 (gradients zeroed, forwards, loss, backward, clip), and
  those of the logger and the checkpoint writer.
\<close>

fun is_compute :: "('i, 'x, 't) event \<Rightarrow> bool" where
  "is_compute ZeroGrad = True"
| "is_compute (ModelForward g images texts) = True"
| "is_compute (DistModelForward g images texts) = True"
| "is_compute (LossCall kwargs) = True"
| "is_compute (Backward scaled v) = True"
| "is_compute (ClipGradNorm c) = True"
| "is_compute e = False"

fun is_report :: "('i, 'x, 't) event \<Rightarrow> bool" where
  "is_report (LoggingInfo m) = True"
| "is_report (TbAddScalar k v n) = True"
| "is_report (WandbLog d n) = True"
| "is_report (TorchSave f) = True"
| "is_report (OsRemove f) = True"
| "is_report e = False"

text \<open>
  A logger or checkpoint event that belongs to the step counter \<open>n\<close>: a record tagged
  with \<open>n\<close>, the checkpoint file of the completed step \<open>n + 1\<close>, the removal of the file
  one interval earlier.
\<close>

fun report_of_step :: "args \<Rightarrow> int \<Rightarrow> ('i, 'x, 't) event \<Rightarrow> bool" where
  "report_of_step a n (LoggingInfo m) = True"
| "report_of_step a n (TbAddScalar k v m) = (m = n)"
| "report_of_step a n (WandbLog d m) = (m = n)"
| "report_of_step a n (TorchSave f) = (f = checkpoint_file a (n + 1))"
| "report_of_step a n (OsRemove f) = (f = checkpoint_file a (n + 1 - save_every_n_steps a))"
| "report_of_step a n e = False"

text \<open>
  The local \<open>step\<close> of micro-batch \<open>i\<close> (lines 105, 116 and 117), the micro-batches
  whose iteration reaches the optimizer step (line 128 and the \<open>continue\<close> of line 165),
  and the values of \<open>step\<close> at the optimizer steps of a run of several epochs over the
  same loader.
\<close>

definition step_counter :: "args \<Rightarrow> ('ri, 'rt) dataloader \<Rightarrow> int \<Rightarrow> nat \<Rightarrow> int" where
  "step_counter a dl epoch i = (num_batches dl div accum_freq a) * epoch + int i div accum_freq a"

definition takes_optimizer_step :: "args \<Rightarrow> nat \<Rightarrow> bool" where
  "takes_optimizer_step a i = (accum_freq a = 1 \<or> (int i + 1) mod accum_freq a = 0)"

definition run_step_values :: "args \<Rightarrow> ('ri, 'rt) dataloader \<Rightarrow> nat \<Rightarrow> int list" where
  "run_step_values a dl epochs =
     concat (map (\<lambda>epoch. map (step_counter a dl (int epoch))
                    (filter (takes_optimizer_step a) [0..<length (batches dl)]))
               [0..<epochs])"

text \<open>Some occurrence of \<open>a\<close> stands before some occurrence of \<open>b\<close>.\<close>

fun occurs_before :: "'a \<Rightarrow> 'a \<Rightarrow> 'a list \<Rightarrow> bool" where
  "occurs_before a b [] = False"
| "occurs_before a b (x # xs) = ((x = a \<and> b \<in> set xs) \<or> occurs_before a b xs)"

text \<open>The entries of a loss dictionary other than \<open>"loss"\<close>.\<close>

definition other_entries :: "(string, real) dict \<Rightarrow> (string, real) dict" where
  "other_entries losses = filter (\<lambda>(k, v). k \<noteq> ''loss'') losses"

text \<open>A run of \<open>update\<close> calls with weight 1 on one meter.\<close>

fun update_many :: "AverageMeter \<Rightarrow> real list \<Rightarrow> py_error + AverageMeter" where
  "update_many m [] = Inr m"
| "update_many m (v # vs) = (case update m v 1 of Inl e \<Rightarrow> Inl e | Inr m' \<Rightarrow> update_many m' vs)"

text \<open>The value of the unwrapped model's \<open>logit_scale\<close> lies in \<open>[0, ln 100]\<close>, when it has one.\<close>

definition logit_scale_clamped :: "'p py_model \<Rightarrow> bool" where
  "logit_scale_clamped m =
     (case logit_scale_attr (unwrap_model m) of Some v \<Rightarrow> 0 \<le> v \<and> v \<le> ln 100 | None \<Rightarrow> True)"

subsection \<open>A small instance\<close>

text \<open>
  Tensors are lists of markers and \<open>torch.cat\<close> is concatenation; a forward with
  gradients adds 100 to every marker, so a live slice can be told from a cached one.
  The optimizer pushes \<open>logit_scale\<close> to \<open>-3\<close>.
\<close>

definition demo_env :: "(unit, nat, nat, nat, nat list, nat list) env" where
  "demo_env =
     \<lparr>model_call = (\<lambda>m g images texts.
        [(''image_features'', map (\<lambda>x. if g then 100 + x else x) images),
         (''text_features'', map (\<lambda>x. if g then 100 + x else x) texts),
         (''logit_scale'', [10])]),
      dist_model_call = (\<lambda>images texts. [(''image_features'', images)]),
      loss_call = (\<lambda>kwargs.
        (''contrastive_loss'', 2) #
        (if dict_contains kwargs ''dist_image_features'' then [(''distill_loss'', 1)] else [])),
      torch_cat = concat,
      item = (\<lambda>t. of_nat (sum_list t)),
      preprocess = (\<lambda>x. x),
      tokenizer = (\<lambda>ts. ts),
      stack_from_numpy = (\<lambda>ts. ts),
      optimizer_update = (\<lambda>tr m. PyModel None (Some (- 3)) ()),
      lr = (\<lambda>tr. 1 / 1000),
      clock = (\<lambda>n. of_nat n),
      is_master = True,
      has_scaler = False,
      has_tb_writer = False,
      wandb_available = False\<rparr>"

text \<open>The same collaborators with an optimizer that leaves the model \<open>m\<close>.\<close>

definition demo_optimizer ::
  "unit py_model \<Rightarrow> (unit, nat, nat, nat, nat list, nat list) env" where
  "demo_optimizer m = demo_env\<lparr>optimizer_update := (\<lambda>tr old. m)\<rparr>"

definition demo_args :: args where
  "demo_args =
     \<lparr>accum_freq = 2, skip_scheduler = False, distill = False, model_name = ''LIFT-ViT-B-16'',
      horovod = False, grad_clip_norm = None, log_every_n_steps = 1, world_size = 1,
      batch_size = 2, wandb = False, save_logs = True, save_every_n_steps = 1, name = ''run'',
      checkpoint_path = ''ckpt'', delete_prev_step_ckpt = True, text_embed_dim = Some 512\<rparr>"

definition demo_data :: "(nat, nat) dataloader" where
  "demo_data =
     \<lparr>num_batches = 4, num_samples = 8,
      batches = [([1, 2], [1, 2]), ([3, 4], [3, 4]), ([5, 6], [5, 6]), ([7, 8], [7, 8])]\<rparr>"

definition demo_state :: "(unit, nat, nat list, nat list) state" where
  "demo_state =
     \<lparr>model = PyModel None (Some 1) (), trace = [], files = (\<lambda>f. None),
      accum_images = [], accum_texts = [], accum_features = [],
      losses_m = [], batch_time_m = reset, data_time_m = reset, ticks = 0, end_time = 0\<rparr>"

text \<open>The state after the forward passes without gradients of the first two batches.\<close>

definition demo_cached :: "(unit, nat, nat list, nat list) state" where
  "demo_cached =
     demo_state\<lparr>trace := [ModelForward False [1, 2] [1, 2], ModelForward False [3, 4] [3, 4]],
       accum_images := [[1, 2], [3, 4]], accum_texts := [[1, 2], [3, 4]],
       accum_features := [(''image_features'', [[1, 2], [3, 4]]), (''text_features'', [[1, 2], [3, 4]])]\<rparr>"

text \<open>A state whose checkpoint directory holds the file of step 1.\<close>

definition demo_saved :: "(unit, nat, nat list, nat list) state" where
  "demo_saved =
     demo_state\<lparr>files := (\<lambda>f. if f = ''ckpt/step_1.pt''
        then Some \<lparr>ck_step = 1, ck_epoch = 0, ck_name = ''run'',
                   ck_state_dict = PyModel None (Some 1) (), ck_has_scaler = False\<rparr>
        else None)\<rparr>"

section \<open>Properties\<close>

subsection \<open>Basic facts about the state and the events\<close>

lemma trace_emit [simp]: "trace (emit e s) = trace s @ [e]"
  by (simp add: emit_def)

lemma emit_fields [simp]:
  "model (emit e s) = model s" "files (emit e s) = files s"
  "accum_images (emit e s) = accum_images s" "accum_texts (emit e s) = accum_texts s"
  "accum_features (emit e s) = accum_features s" "losses_m (emit e s) = losses_m s"
  "batch_time_m (emit e s) = batch_time_m s" "data_time_m (emit e s) = data_time_m s"
  "ticks (emit e s) = ticks s" "end_time (emit e s) = end_time s"
  by (simp_all add: emit_def)

lemma trace_apply_step [simp]: "trace (apply_step env e s) = trace s @ [e]"
  by (simp add: apply_step_def)

lemma trace_clip_if_configured:
  "trace (clip_if_configured a s) =
     trace s @ (case grad_clip_norm a of Some c \<Rightarrow> [ClipGradNorm c] | None \<Rightarrow> [])"
  by (simp add: clip_if_configured_def split: option.splits)

lemma backward_Inr:
  "(backward t b = Inr ev) = (\<exists>v. t = Tensor v \<and> ev = Backward b v)"
  by (cases t) (auto simp: backward_def)

lemma backward_py_sum:
  "(backward (py_sum vs) b = Inr ev) = (vs \<noteq> [] \<and> ev = Backward b (sum_list vs))"
  by (auto simp: backward_def py_sum_def)

lemma backward_py_sum_Inl:
  "(backward (py_sum vs) b = Inl e) = (vs = [] \<and> e = AttributeError ''backward'')"
  by (auto simp: backward_def py_sum_def)

lemma map_of_setitem_same: "map_of (dict_setitem d k v) k = Some v"
  by (simp add: dict_setitem_def update_conv')

lemma other_entries_setitem:
  "\<not> dict_contains d ''loss'' \<Longrightarrow> other_entries (dict_setitem d ''loss'' v) = d"
  unfolding other_entries_def dict_setitem_def dict_contains_def
  by (induction d) (auto split: if_splits)

lemma demo_cache_features:
  "(case cache_features demo_env demo_args [1, 2] [1, 2] demo_state of
      Inl e \<Rightarrow> Inl e
    | Inr s \<Rightarrow> cache_features demo_env demo_args [3, 4] [3, 4] s) = Inr demo_cached"
  by (simp add: cache_features_def demo_env_def demo_args_def demo_state_def demo_cached_def
        emit_def dict_pop_default_def append_feature_def dict_setitem_def Let_def)

subsection \<open>Loss additivity\<close>

text \<open>
  C7. Let the loss function name none of its components \<open>"loss"\<close>. Whenever the
  non-accumulating path, or an index of the recomputation phase, gets through its loss
  call and its backward call (it raises instead when the loss returns no component, or
  when an output is named \<open>output_dict\<close>), then in its loss dictionary the entry \<open>"loss"\<close>
  is the sum of all other entries; these other entries are the components the loss
  function returned for the one loss call of the block, and there is at least one; and
  the one total passed to \<open>backward\<close> is that same sum, taken before the key \<open>"loss"\<close>
  was set, so every component counts once.
\<close>

theorem loss_entry_is_sum_of_components:
  assumes "\<forall>kwargs. \<not> dict_contains (loss_call env kwargs) ''loss''"
  shows "(case forward_backward env a images texts s of
            Inl e \<Rightarrow> True
          | Inr (s', losses, logit_scale) \<Rightarrow>
              map_of losses ''loss'' = Some (sum_list (dict_values (other_entries losses)))
            \<and> other_entries losses \<noteq> []
            \<and> map (loss_call env) (loss_inputs (new_events s s')) = [other_entries losses]
            \<and> backward_totals (new_events s s') = [sum_list (dict_values (other_entries losses))])
       \<and> (case recompute_one env j s of
            Inl e \<Rightarrow> True
          | Inr (s', losses, rest) \<Rightarrow>
              map_of losses ''loss'' = Some (sum_list (dict_values (other_entries losses)))
            \<and> other_entries losses \<noteq> []
            \<and> map (loss_call env) (loss_inputs (new_events s s')) = [other_entries losses]
            \<and> backward_totals (new_events s s') = [sum_list (dict_values (other_entries losses))])"
proof (intro conjI)
  show "case forward_backward env a images texts s of
          Inl e \<Rightarrow> True
        | Inr (s', losses, logit_scale) \<Rightarrow>
            map_of losses ''loss'' = Some (sum_list (dict_values (other_entries losses)))
          \<and> other_entries losses \<noteq> []
          \<and> map (loss_call env) (loss_inputs (new_events s s')) = [other_entries losses]
          \<and> backward_totals (new_events s s') = [sum_list (dict_values (other_entries losses))]"
    using assms
    by (auto simp: forward_backward_def Let_def map_of_setitem_same other_entries_setitem
          backward_totals_def loss_inputs_def new_events_def backward_py_sum dict_values_def
          split: if_splits sum.splits)
next
  show "case recompute_one env j s of
          Inl e \<Rightarrow> True
        | Inr (s', losses, rest) \<Rightarrow>
            map_of losses ''loss'' = Some (sum_list (dict_values (other_entries losses)))
          \<and> other_entries losses \<noteq> []
          \<and> map (loss_call env) (loss_inputs (new_events s s')) = [other_entries losses]
          \<and> backward_totals (new_events s s') = [sum_list (dict_values (other_entries losses))]"
    using assms
    by (auto simp: recompute_one_def Let_def map_of_setitem_same other_entries_setitem
          backward_totals_def loss_inputs_def new_events_def backward_py_sum dict_values_def
          split: if_splits option.splits sum.splits prod.splits)
qed

theorem loss_entry_is_sum_of_components_witness:
  "(\<forall>kwargs. \<not> dict_contains (loss_call demo_env kwargs) ''loss'')
   \<and> (case forward_backward demo_env (demo_args\<lparr>distill := True\<rparr>) [1, 2] [1, 2] demo_state of
         Inl e \<Rightarrow> False
       | Inr (s', losses, logit_scale) \<Rightarrow>
           losses = [(''contrastive_loss'', 2), (''distill_loss'', 1), (''loss'', 3)]
         \<and> backward_totals (new_events demo_state s') = [3])
   \<and> (case recompute_one demo_env 1 demo_cached of
         Inl e \<Rightarrow> False
       | Inr (s', losses, rest) \<Rightarrow>
           losses = [(''contrastive_loss'', 2), (''loss'', 2)]
         \<and> backward_totals (new_events demo_cached s') = [2])"
  using loss_entry_is_sum_of_components [where env = demo_env
      and a = "demo_args\<lparr>distill := True\<rparr>" and images = "[1, 2]" and texts = "[1, 2]"
      and s = demo_state and j = 1]
    loss_entry_is_sum_of_components [where env = demo_env and a = demo_args
      and images = "[1, 2]" and texts = "[1, 2]" and s = demo_cached and j = 1]
  by (simp add: forward_backward_def recompute_one_def demo_env_def demo_args_def demo_cached_def
        demo_state_def emit_def dict_setitem_def dict_update_def merge_kwargs_def dict_keys_def
        dict_contains_def dict_values_def backward_def py_sum_def backward_totals_def
        new_events_def Let_def)

subsection \<open>Gradient finalization\<close>

lemma new_events_finalize:
  "new_events s (finalize env a s) =
     (if has_scaler env then
        (if horovod a then
           [Synchronize, Unscale]
           @ (case grad_clip_norm a of Some c \<Rightarrow> [ClipGradNorm c] | None \<Rightarrow> [])
           @ [ScalerStep True]
         else (case grad_clip_norm a of Some c \<Rightarrow> [Unscale, ClipGradNorm c] | None \<Rightarrow> [])
           @ [ScalerStep False])
        @ [ScalerUpdate]
      else (case grad_clip_norm a of Some c \<Rightarrow> [ClipGradNorm c] | None \<Rightarrow> []) @ [OptimizerStep])"
  by (simp add: new_events_def finalize_def trace_clip_if_configured split: option.splits)

text \<open>
  C2, as the code has it. With a scaler, in the events of the finalization block: when
  \<open>grad_clip_norm\<close> is set, \<open>unscale_\<close> stands before the one clip and no clip stands before
  it; in the horovod branch \<open>optimizer.synchronize()\<close> is called exactly once, before
  \<open>unscale_\<close> (not after it), before the clip, and before the one optimizer step, which runs
  inside \<open>skip_synchronize\<close>.
\<close>

theorem unscale_before_clip_and_one_synchronize:
  assumes "has_scaler env"
  shows "(\<forall>c. grad_clip_norm a = Some c \<longrightarrow>
            occurs_before Unscale (ClipGradNorm c) (new_events s (finalize env a s))
          \<and> \<not> occurs_before (ClipGradNorm c) Unscale (new_events s (finalize env a s))
          \<and> clip_norms (new_events s (finalize env a s)) = [c])
       \<and> (horovod a \<longrightarrow>
            count_list (new_events s (finalize env a s)) Synchronize = 1
          \<and> occurs_before Synchronize Unscale (new_events s (finalize env a s))
          \<and> \<not> occurs_before Unscale Synchronize (new_events s (finalize env a s))
          \<and> (\<forall>c. grad_clip_norm a = Some c \<longrightarrow>
                 occurs_before Synchronize (ClipGradNorm c) (new_events s (finalize env a s)))
          \<and> filter is_step (new_events s (finalize env a s)) = [ScalerStep True]
          \<and> occurs_before Synchronize (ScalerStep True) (new_events s (finalize env a s)))"
  using assms
  by (auto simp: new_events_finalize clip_norms_def split: option.splits)

theorem unscale_before_clip_and_one_synchronize_witness:
  "has_scaler (demo_env\<lparr>has_scaler := True\<rparr>)
   \<and> grad_clip_norm (demo_args\<lparr>horovod := True, grad_clip_norm := Some 5\<rparr>) = Some 5
   \<and> horovod (demo_args\<lparr>horovod := True, grad_clip_norm := Some 5\<rparr>)
   \<and> occurs_before Unscale (ClipGradNorm 5)
        (new_events demo_state (finalize (demo_env\<lparr>has_scaler := True\<rparr>)
           (demo_args\<lparr>horovod := True, grad_clip_norm := Some 5\<rparr>) demo_state))
   \<and> count_list
        (new_events demo_state (finalize (demo_env\<lparr>has_scaler := True\<rparr>)
           (demo_args\<lparr>horovod := True, grad_clip_norm := Some 5\<rparr>) demo_state)) Synchronize = 1
   \<and> occurs_before Synchronize Unscale
        (new_events demo_state (finalize (demo_env\<lparr>has_scaler := True\<rparr>)
           (demo_args\<lparr>horovod := True, grad_clip_norm := Some 5\<rparr>) demo_state))"
  using unscale_before_clip_and_one_synchronize [where env = "demo_env\<lparr>has_scaler := True\<rparr>"
      and a = "demo_args\<lparr>horovod := True, grad_clip_norm := Some 5\<rparr>" and s = demo_state]
  by (simp add: demo_env_def demo_args_def)

text \<open>
  The claim C2 places the synchronization after the unscaling. In the horovod branch
  with a scaler and a clip norm the events are \<open>synchronize\<close>, \<open>unscale_\<close>, clip, step,
  update: the synchronization does not come after the unscaling.
\<close>

theorem synchronize_after_unscale_counterexample:
  "new_events demo_state (finalize (demo_env\<lparr>has_scaler := True\<rparr>)
      (demo_args\<lparr>horovod := True, grad_clip_norm := Some 5\<rparr>) demo_state)
     = [Synchronize, Unscale, ClipGradNorm 5, ScalerStep True, ScalerUpdate]
   \<and> \<not> occurs_before Unscale Synchronize
        (new_events demo_state (finalize (demo_env\<lparr>has_scaler := True\<rparr>)
           (demo_args\<lparr>horovod := True, grad_clip_norm := Some 5\<rparr>) demo_state))"
  by (simp add: new_events_finalize demo_env_def demo_args_def)

subsection \<open>Checkpoints\<close>

text \<open>The decimal digits of a number determine it, so a checkpoint file names one step.\<close>

lemma digit_char_decode: "d < 10 \<Longrightarrow> (of_char (digit_char d) :: nat) = 48 + d"
  by (simp add: digit_char_def)

lemma str_nat_decode: "foldl (\<lambda>acc c. 10 * acc + (of_char c - 48)) 0 (str_nat n) = n"
proof (induction n rule: str_nat.induct)
  case (1 n)
  show ?case
  proof (cases "n < 10")
    case True
    then show ?thesis by (subst str_nat.simps) (simp add: digit_char_decode)
  next
    case False
    then have "foldl (\<lambda>acc c. 10 * acc + (of_char c - 48)) 0 (str_nat (n div 10)) = n div 10"
      using 1 by simp
    with False show ?thesis
      by (subst str_nat.simps) (simp add: digit_char_decode)
  qed
qed

lemma str_nat_inj: "str_nat n = str_nat m \<Longrightarrow> n = m"
  by (metis str_nat_decode)

lemma digit_char_not_minus: "d < 10 \<Longrightarrow> digit_char d \<noteq> CHR ''-''"
proof
  assume "d < 10" "digit_char d = CHR ''-''"
  then have "(of_char (digit_char d) :: nat) = of_char (CHR ''-'')" by simp
  with \<open>d < 10\<close> show False by (simp add: digit_char_decode)
qed

lemma str_nat_digits: "CHR ''-'' \<notin> set (str_nat n)"
proof (induction n rule: str_nat.induct)
  case (1 n)
  show ?case
  proof (cases "n < 10")
    case True
    then show ?thesis
      using digit_char_not_minus [of n] by (subst str_nat.simps) auto
  next
    case False
    then show ?thesis
      using 1 digit_char_not_minus [of "n mod 10"] by (subst str_nat.simps) auto
  qed
qed

lemma str_nat_nonempty: "str_nat n \<noteq> []"
  by (subst str_nat.simps) simp

lemma str_nat_not_minus: "str_nat n \<noteq> CHR ''-'' # cs"
  using str_nat_digits [of n] by (metis list.set_intros(1))

lemma str_int_inj: "str_int i = str_int j \<Longrightarrow> i = j"
proof -
  assume h: "str_int i = str_int j"
  show ?thesis
  proof (cases "i < 0")
    case True
    show ?thesis
    proof (cases "j < 0")
      case True
      with \<open>i < 0\<close> h have "nat (- i) = nat (- j)" by (simp add: str_int_def str_nat_inj)
      with True \<open>i < 0\<close> show ?thesis by simp
    next
      case False
      with \<open>i < 0\<close> h str_nat_not_minus [of "nat j" "str_nat (nat (- i))"] show ?thesis
        by (simp add: str_int_def)
    qed
  next
    case False
    show ?thesis
    proof (cases "j < 0")
      case True
      with False h str_nat_not_minus [of "nat i" "str_nat (nat (- j))"] show ?thesis
        by (simp add: str_int_def)
    next
      case jf: False
      with False h have "nat i = nat j" by (simp add: str_int_def str_nat_inj)
      with False jf show ?thesis by simp
    qed
  qed
qed

lemma checkpoint_file_inj: "checkpoint_file a n = checkpoint_file a m \<Longrightarrow> n = m"
  by (auto simp: checkpoint_file_def path_join_def dest: str_int_inj split: if_splits)


text \<open>
  C6. When \<open>save_logs\<close> is set, \<open>save_every_n_steps\<close> is not zero and divides the completed
  step \<open>step + 1\<close>, the block writes one checkpoint, to the file named by the completed
  step, which then holds that step; when \<open>delete_prev_step_ckpt\<close> is set it removes the
  file of the completed step minus one interval if that file exists, and does nothing
  about it (and raises nothing) if it does not; no other file changes. In every other
  case the block changes nothing. Distinct steps have distinct file names.
\<close>

theorem checkpoint_written_on_cadence:
  "(if save_logs a \<and> save_every_n_steps a \<noteq> 0 \<and> (step + 1) mod save_every_n_steps a = 0
    then
      new_events s (save_checkpoint env a epoch step s) =
        TorchSave (checkpoint_file a (step + 1)) #
        (if delete_prev_step_ckpt a \<and> files s (checkpoint_file a (step + 1 - save_every_n_steps a)) \<noteq> None
         then [OsRemove (checkpoint_file a (step + 1 - save_every_n_steps a))] else [])
    \<and> files (save_checkpoint env a epoch step s) (checkpoint_file a (step + 1)) =
        Some \<lparr>ck_step = step + 1, ck_epoch = epoch, ck_name = name a,
              ck_state_dict = model s, ck_has_scaler = has_scaler env\<rparr>
    \<and> (delete_prev_step_ckpt a \<longrightarrow>
         files (save_checkpoint env a epoch step s) (checkpoint_file a (step + 1 - save_every_n_steps a)) = None)
    \<and> (\<forall>f. f \<noteq> checkpoint_file a (step + 1) \<and> f \<noteq> checkpoint_file a (step + 1 - save_every_n_steps a)
           \<longrightarrow> files (save_checkpoint env a epoch step s) f = files s f)
    else save_checkpoint env a epoch step s = s)
   \<and> (\<forall>n m. checkpoint_file a n = checkpoint_file a m \<longrightarrow> n = m)"
proof -
  have neq: "save_every_n_steps a \<noteq> 0 \<Longrightarrow>
      checkpoint_file a (step + 1 - save_every_n_steps a) \<noteq> checkpoint_file a (step + 1)"
    using checkpoint_file_inj [of a "step + 1 - save_every_n_steps a" "step + 1"] by auto
  show ?thesis
    using neq
    by (auto simp: save_checkpoint_def new_events_def Let_def dest: checkpoint_file_inj)
qed

lemma demo_ckpt_name_2: "checkpoint_file demo_args 2 = ''ckpt/step_2.pt''"
  by code_simp

lemma demo_ckpt_name_1: "checkpoint_file demo_args 1 = ''ckpt/step_1.pt''"
  by code_simp

lemma demo_args_checkpointing:
  "save_logs demo_args" "save_every_n_steps demo_args = 1" "delete_prev_step_ckpt demo_args"
  by (simp_all add: demo_args_def)

theorem checkpoint_written_on_cadence_witness:
  "save_logs demo_args \<and> save_every_n_steps demo_args \<noteq> 0
   \<and> (1 + 1) mod save_every_n_steps demo_args = 0 \<and> delete_prev_step_ckpt demo_args
   \<and> new_events demo_saved
        (save_checkpoint demo_env demo_args 0 1
           demo_saved)
       = [TorchSave ''ckpt/step_2.pt'', OsRemove ''ckpt/step_1.pt'']
   \<and> files (save_checkpoint demo_env demo_args 0 1
           demo_saved)
         ''ckpt/step_1.pt'' = None
   \<and> files (save_checkpoint demo_env demo_args 0 1
           demo_saved)
         ''ckpt/step_2.pt'' \<noteq> None"
  using checkpoint_written_on_cadence [where a = demo_args and step = 1 and env = demo_env
      and epoch = 0
      and s = demo_saved]
  by (simp add: demo_args_checkpointing demo_ckpt_name_1 demo_ckpt_name_2 demo_saved_def demo_state_def)


subsection \<open>What each block adds to the trace, and what it leaves alone\<close>

lemma forward_backward_frame:
  assumes "forward_backward env a images texts s = Inr (s', losses, ls)"
  shows "\<exists>evs. trace s' = trace s @ evs \<and> list_all is_compute evs \<and> model s' = model s
           \<and> files s' = files s \<and> batch_time_m s' = batch_time_m s \<and> data_time_m s' = data_time_m s
           \<and> losses_m s' = losses_m s \<and> ticks s' = ticks s \<and> end_time s' = end_time s"
  using assms
  by (auto simp: forward_backward_def Let_def backward_py_sum split: if_splits sum.splits)

lemma cache_features_frame:
  assumes "cache_features env a images texts s = Inr s'"
  shows "trace s' = trace s @ [ModelForward False images texts] \<and> model s' = model s
           \<and> files s' = files s \<and> batch_time_m s' = batch_time_m s \<and> data_time_m s' = data_time_m s
           \<and> losses_m s' = losses_m s \<and> ticks s' = ticks s \<and> end_time s' = end_time s
           \<and> accum_freq a > 1"
  using assms
  by (auto simp: cache_features_def Let_def split: if_splits)

lemma recompute_one_frame:
  assumes "recompute_one env j s = Inr (s', locals)"
  shows "\<exists>kw v. s' = s\<lparr>trace := trace s @
            [ModelForward True (accum_images s ! j) (accum_texts s ! j), LossCall kw, Backward (has_scaler env) v]\<rparr>"
  using assms
  by (auto simp: recompute_one_def Let_def emit_def backward_py_sum
      split: if_splits option.splits sum.splits prod.splits)

lemma recompute_frame:
  assumes "recompute env js s locals = Inr (s', locals')"
  shows "\<exists>evs. s' = s\<lparr>trace := trace s @ evs\<rparr> \<and> list_all is_compute evs
           \<and> list_all (\<lambda>e. \<not> is_teacher_forward e) evs"
  using assms
proof (induction js arbitrary: s locals)
  case Nil
  then show ?case by (auto intro: exI [of _ "[]"])
next
  case (Cons j js)
  from Cons.prems obtain s1 l1 where one: "recompute_one env j s = Inr (s1, l1)"
    and rest: "recompute env js s1 (Some l1) = Inr (s', locals')"
    by (auto split: sum.splits)
  from recompute_one_frame [OF one] obtain kw v where
    s1: "s1 = s\<lparr>trace := trace s @
            [ModelForward True (accum_images s ! j) (accum_texts s ! j), LossCall kw, Backward (has_scaler env) v]\<rparr>"
    by blast
  from Cons.IH [OF rest] obtain evs where
    s': "s' = s1\<lparr>trace := trace s1 @ evs\<rparr>" and c: "list_all is_compute evs"
    and t: "list_all (\<lambda>e. \<not> is_teacher_forward e) evs"
    by blast
  show ?case
    apply (rule exI [of _ "[ModelForward True (accum_images s ! j) (accum_texts s ! j), LossCall kw, Backward (has_scaler env) v] @ evs"])
    using s1 s' c t by simp
qed

lemma train_step_frame:
  assumes "train_step env a i images texts s = Inr (s', locals)"
  shows "\<exists>evs. trace s' = trace s @ evs \<and> list_all is_compute evs \<and> model s' = model s
           \<and> files s' = files s \<and> batch_time_m s' = batch_time_m s \<and> data_time_m s' = data_time_m s
           \<and> losses_m s' = losses_m s \<and> ticks s' = ticks s \<and> end_time s' = end_time s
           \<and> (accum_freq a \<noteq> 1 \<longrightarrow> list_all (\<lambda>e. \<not> is_teacher_forward e) evs)"
proof (cases "accum_freq a = 1")
  case True
  with assms obtain losses ls where
    "forward_backward env a images texts s = Inr (s', losses, ls)"
    by (auto simp: train_step_def split: sum.splits prod.splits)
  from forward_backward_frame [OF this] True show ?thesis by auto
next
  case False
  with assms obtain s1 where c: "cache_features env a images texts s = Inr s1"
    by (auto simp: train_step_def split: sum.splits)
  note f1 = cache_features_frame [OF c]
  show ?thesis
  proof (cases "(int i + 1) mod accum_freq a > 0")
    case True
    with assms False c have "s' = s1" by (simp add: train_step_def)
    with f1 False show ?thesis by auto
  next
    case nz: False
    with assms False c obtain l where
      r: "recompute env [0..<nat (accum_freq a)] (emit ZeroGrad s1) None = Inr (s', l)"
      by (auto simp: train_step_def split: sum.splits option.splits prod.splits)
    from recompute_frame [OF r] obtain evs where
      s': "s' = (emit ZeroGrad s1)\<lparr>trace := trace (emit ZeroGrad s1) @ evs\<rparr>"
      and c2: "list_all is_compute evs" and t: "list_all (\<lambda>e. \<not> is_teacher_forward e) evs"
      by blast
    show ?thesis
      apply (rule exI [of _ "[ModelForward False images texts, ZeroGrad] @ evs"])
      using s' c2 t f1 by (simp add: emit_def)
  qed
qed

lemma fold_emit:
  "fold (\<lambda>(k, v) s. emit (f k v) s) xs s = s\<lparr>trace := trace s @ map (\<lambda>(k, v). f k v) xs\<rparr>"
  by (induction xs arbitrary: s) (auto simp: emit_def)

lemma log_progress_frame:
  assumes "log_progress env a dl epoch step i_accum nbpe images losses ls s = Inr s'"
  shows "\<exists>evs. trace s' = trace s @ evs \<and> list_all (report_of_step a step) evs \<and> model s' = model s
           \<and> files s' = files s \<and> ticks s' = ticks s \<and> end_time s' = end_time s
           \<and> accum_images s' = accum_images s \<and> accum_texts s' = accum_texts s
           \<and> accum_features s' = accum_features s"
  using assms
  unfolding log_progress_def Let_def
  by (auto simp: fold_emit list_all_iff split: if_splits sum.splits option.splits)

lemma save_checkpoint_frame:
  "\<exists>evs. trace (save_checkpoint env a epoch step s) = trace s @ evs \<and> list_all (report_of_step a step) evs
       \<and> model (save_checkpoint env a epoch step s) = model s
       \<and> ticks (save_checkpoint env a epoch step s) = ticks s
       \<and> end_time (save_checkpoint env a epoch step s) = end_time s
       \<and> accum_images (save_checkpoint env a epoch step s) = accum_images s
       \<and> accum_texts (save_checkpoint env a epoch step s) = accum_texts s
       \<and> accum_features (save_checkpoint env a epoch step s) = accum_features s
       \<and> losses_m (save_checkpoint env a epoch step s) = losses_m s
       \<and> batch_time_m (save_checkpoint env a epoch step s) = batch_time_m s
       \<and> data_time_m (save_checkpoint env a epoch step s) = data_time_m s"
  by (auto simp: save_checkpoint_def Let_def)

lemma finalize_frame:
  "trace (finalize env a s) = trace s @ new_events s (finalize env a s)
   \<and> files (finalize env a s) = files s \<and> ticks (finalize env a s) = ticks s
   \<and> end_time (finalize env a s) = end_time s
   \<and> accum_images (finalize env a s) = accum_images s
   \<and> accum_texts (finalize env a s) = accum_texts s
   \<and> accum_features (finalize env a s) = accum_features s
   \<and> losses_m (finalize env a s) = losses_m s
   \<and> batch_time_m (finalize env a s) = batch_time_m s
   \<and> data_time_m (finalize env a s) = data_time_m s"
  by (simp add: new_events_def finalize_def apply_step_def clip_if_configured_def split: option.splits)

lemma num_steps_finalize: "num_steps (new_events s (finalize env a s)) = 1"
  by (simp add: new_events_finalize num_steps_def split: option.splits)

lemma finalize_no_report:
  "filter is_report (new_events s (finalize env a s)) = []"
  "scheduler_steps (new_events s (finalize env a s)) = []"
  "teacher_forwards (new_events s (finalize env a s)) = []"
  by (auto simp: new_events_finalize scheduler_steps_def teacher_forwards_def split: option.splits)

lemma clamp_unwrapped_clamped: "logit_scale_clamped (clamp_unwrapped_logit_scale 0 (ln 100) m)"
  by (cases m)
     (auto simp: logit_scale_clamped_def clamp_unwrapped_logit_scale_def unwrap_model_def clamp_def
        split: option.splits)

lemma clamp_unwrapped_value:
  "logit_scale_attr (unwrap_model (clamp_unwrapped_logit_scale lo hi m))
     = map_option (clamp lo hi) (logit_scale_attr (unwrap_model m))"
  by (cases m)
     (auto simp: clamp_unwrapped_logit_scale_def unwrap_model_def split: option.splits)

lemma clamp_logit_scale_frame:
  "model (clamp_logit_scale s) = clamp_unwrapped_logit_scale 0 (ln 100) (model s)
   \<and> trace (clamp_logit_scale s) = trace s @
       (if logit_scale_attr (unwrap_model (model s)) \<noteq> None then [ClampLogitScale False] else [])
   \<and> files (clamp_logit_scale s) = files s \<and> ticks (clamp_logit_scale s) = ticks s
   \<and> end_time (clamp_logit_scale s) = end_time s
   \<and> accum_images (clamp_logit_scale s) = accum_images s
   \<and> accum_texts (clamp_logit_scale s) = accum_texts s
   \<and> accum_features (clamp_logit_scale s) = accum_features s
   \<and> losses_m (clamp_logit_scale s) = losses_m s
   \<and> batch_time_m (clamp_logit_scale s) = batch_time_m s
   \<and> data_time_m (clamp_logit_scale s) = data_time_m s"
  by (cases "model s")
     (auto simp: clamp_logit_scale_def clamp_unwrapped_logit_scale_def unwrap_model_def
        split: option.splits)

lemma finish_step_frame:
  assumes "finish_step env a dl epoch step i_accum nbpe images losses ls s = Inr s'"
  shows "\<exists>evs. trace s' = trace (finalize env a s)
             @ (if logit_scale_attr (unwrap_model (model (finalize env a s))) \<noteq> None
                then [ClampLogitScale False] else [])
             @ evs
           \<and> list_all (report_of_step a step) evs
           \<and> model s' = clamp_unwrapped_logit_scale 0 (ln 100) (model (finalize env a s))
           \<and> (accum_freq a > 1 \<longrightarrow> accum_images s' = [] \<and> accum_texts s' = [] \<and> accum_features s' = [])"
proof -
  define s2 where "s2 = (if accum_freq a > 1
       then (finalize env a s)\<lparr>accum_images := [], accum_texts := [], accum_features := []\<rparr>
       else finalize env a s)"
  define s3 where "s3 = clamp_logit_scale s2"
  have s2: "trace s2 = trace (finalize env a s)" "model s2 = model (finalize env a s)"
    "accum_freq a > 1 \<longrightarrow> accum_images s2 = [] \<and> accum_texts s2 = [] \<and> accum_features s2 = []"
    by (simp_all add: s2_def)
  have s3: "trace s3 = trace (finalize env a s)
             @ (if logit_scale_attr (unwrap_model (model (finalize env a s))) \<noteq> None
                then [ClampLogitScale False] else [])"
    "model s3 = clamp_unwrapped_logit_scale 0 (ln 100) (model (finalize env a s))"
    "accum_freq a > 1 \<longrightarrow> accum_images s3 = [] \<and> accum_texts s3 = [] \<and> accum_features s3 = []"
    using s2 clamp_logit_scale_frame [of s2] by (simp_all add: s3_def)
  from assms obtain bm s7 where
    lp: "log_progress env a dl epoch step i_accum nbpe images losses ls
           (s3\<lparr>batch_time_m := bm, ticks := Suc (Suc (ticks s3)),
               end_time := clock env (Suc (ticks s3))\<rparr>) = Inr s7"
    and s': "s' = save_checkpoint env a epoch step s7"
    unfolding finish_step_def Let_def s2_def [symmetric] s3_def [symmetric]
    by (auto simp: time_time_def split: sum.splits prod.splits)
  define s6 where "s6 = s3\<lparr>batch_time_m := bm, ticks := Suc (Suc (ticks s3)),
               end_time := clock env (Suc (ticks s3))\<rparr>"
  have s6: "trace s6 = trace s3" "model s6 = model s3"
        "accum_images s6 = accum_images s3" "accum_texts s6 = accum_texts s3"
        "accum_features s6 = accum_features s3"
    by (simp_all add: s6_def)
  note lp = lp [folded s6_def]
  from log_progress_frame [OF lp] obtain e1 where
    e1: "trace s7 = trace s6 @ e1" "list_all (report_of_step a step) e1" "model s7 = model s6"
        "accum_images s7 = accum_images s6" "accum_texts s7 = accum_texts s6"
        "accum_features s7 = accum_features s6"
    by blast
  from save_checkpoint_frame [of env a epoch step s7] obtain e2 where
    e2: "trace s' = trace s7 @ e2" "list_all (report_of_step a step) e2" "model s' = model s7"
        "accum_images s' = accum_images s7" "accum_texts s' = accum_texts s7"
        "accum_features s' = accum_features s7"
    unfolding s' by blast
  show ?thesis
    apply (rule exI [of _ "e1 @ e2"])
    using s3 s6 e1 e2 by simp
qed

lemma train_step_locals:
  assumes "train_step env a i images texts s = Inr (s', locals)"
  shows "(locals = None) = (accum_freq a \<noteq> 1 \<and> (int i + 1) mod accum_freq a > 0)
       \<and> (accum_freq a = 1 \<or> accum_freq a > 1)"
  using assms
  by (auto simp: train_step_def cache_features_def Let_def
        split: if_splits sum.splits prod.splits option.splits)

lemma compute_event_projections:
  assumes "is_compute e"
  shows "\<not> is_step e" "scheduler_arg e = []" "\<not> is_report e"
  using assms by (cases e; simp)+

lemma report_event_projections:
  assumes "is_report e"
  shows "\<not> is_step e" "scheduler_arg e = []" "\<not> is_teacher_forward e" "\<not> is_compute e"
  using assms by (cases e; simp)+

lemma compute_events_projections:
  assumes "list_all is_compute evs"
  shows "filter is_step evs = []" "scheduler_steps evs = []" "num_steps evs = 0"
  using assms
  by (induction evs) (auto simp: scheduler_steps_def num_steps_def compute_event_projections)

lemma report_events_projections:
  assumes "list_all is_report evs"
  shows "filter is_step evs = []" "scheduler_steps evs = []" "num_steps evs = 0"
    "teacher_forwards evs = []"
  using assms
  by (induction evs)
     (auto simp: scheduler_steps_def num_steps_def teacher_forwards_def report_event_projections)

lemma report_of_step_is_report: "report_of_step a n e \<Longrightarrow> is_report e"
  by (cases e) simp_all

lemma reports_of_step_are_reports: "list_all (report_of_step a n) evs \<Longrightarrow> list_all is_report evs"
  by (induction evs) (auto intro: report_of_step_is_report)

lemma no_teacher_events: "list_all (\<lambda>e. \<not> is_teacher_forward e) evs \<Longrightarrow> teacher_forwards evs = []"
  by (induction evs) (auto simp: teacher_forwards_def)

lemma projections_append [simp]:
  "num_steps (xs @ ys) = num_steps xs + num_steps ys"
  "scheduler_steps (xs @ ys) = scheduler_steps xs @ scheduler_steps ys"
  "teacher_forwards (xs @ ys) = teacher_forwards xs @ teacher_forwards ys"
  by (simp_all add: num_steps_def scheduler_steps_def teacher_forwards_def)

lemma new_events_append: "trace s' = trace s @ evs \<Longrightarrow> new_events s s' = evs"
  by (simp add: new_events_def)

text \<open>One iteration: the events it adds and what it does to the model.\<close>

lemma iteration_unfold:
  "iteration env a dl epoch nbpe i batch s =
     (case update (data_time_m s)
             (clock env (ticks s) - end_time s) 1 of
        Inl e \<Rightarrow> Inl e
      | Inr dm \<Rightarrow>
          (case train_step env a i
                  (fst (during_training_data_preprocess env a (fst batch) (snd batch)))
                  (snd (during_training_data_preprocess env a (fst batch) (snd batch)))
                  (emit ZeroGrad
                     ((if \<not> skip_scheduler a
                       then emit (SchedulerCall (nbpe * epoch + int i div accum_freq a)) s else s)
                      \<lparr>ticks := Suc (ticks s), data_time_m := dm\<rparr>)) of
             Inl e \<Rightarrow> Inl e
           | Inr (s3, None) \<Rightarrow> Inr s3
           | Inr (s3, Some (losses, logit_scale, last_images)) \<Rightarrow>
               finish_step env a dl epoch (nbpe * epoch + int i div accum_freq a)
                 (int i div accum_freq a) nbpe last_images losses logit_scale s3))"
  by (cases batch; cases "during_training_data_preprocess env a (fst batch) (snd batch)")
     (simp add: iteration_def Let_def time_time_def cong del: sum.case_cong_weak)


lemma iteration_shape:
  assumes "iteration env a dl epoch nbpe i batch s = Inr s'"
  shows "\<exists>evs rest. new_events s s'
          = (if skip_scheduler a then [] else [SchedulerCall (nbpe * epoch + int i div accum_freq a)])
            @ evs @ rest
      \<and> list_all is_compute evs
      \<and> (accum_freq a \<noteq> 1 \<longrightarrow> list_all (\<lambda>e. \<not> is_teacher_forward e) evs)
      \<and> (accum_freq a = 1 \<or> accum_freq a > 1)
      \<and> ((accum_freq a \<noteq> 1 \<and> (int i + 1) mod accum_freq a > 0 \<and> rest = [] \<and> model s' = model s)
         \<or> ((accum_freq a = 1 \<or> (int i + 1) mod accum_freq a = 0)
           \<and> (\<exists>s3 rep.
                 rest = new_events s3 (finalize env a s3)
                   @ (if logit_scale_attr (unwrap_model (model (finalize env a s3))) \<noteq> None
                      then [ClampLogitScale False] else [])
                   @ rep
               \<and> list_all (report_of_step a (nbpe * epoch + int i div accum_freq a)) rep
               \<and> model s3 = model s
               \<and> model s' = clamp_unwrapped_logit_scale 0 (ln 100) (model (finalize env a s3))
               \<and> (accum_freq a > 1 \<longrightarrow>
                     accum_images s' = [] \<and> accum_texts s' = [] \<and> accum_features s' = []))))"
proof -
  let ?sched = "if skip_scheduler a then [] else [SchedulerCall (nbpe * epoch + int i div accum_freq a)]"
  define s1 where "s1 = (if \<not> skip_scheduler a
      then emit (SchedulerCall (nbpe * epoch + int i div accum_freq a)) s else s)"
  have s1: "trace s1 = trace s @ ?sched" "model s1 = model s"
    by (simp_all add: s1_def)
  define images where "images = fst (during_training_data_preprocess env a (fst batch) (snd batch))"
  define texts where "texts = snd (during_training_data_preprocess env a (fst batch) (snd batch))"
  from assms obtain dm s3 locals where
    ts: "train_step env a i images texts
           (emit ZeroGrad (s1\<lparr>ticks := Suc (ticks s), data_time_m := dm\<rparr>)) = Inr (s3, locals)"
    and fin: "(case locals of
                 None \<Rightarrow> Inr s3
               | Some (losses, logit_scale, last_images) \<Rightarrow>
                   finish_step env a dl epoch (nbpe * epoch + int i div accum_freq a)
                     (int i div accum_freq a) nbpe last_images losses logit_scale s3) = Inr s'"
    unfolding iteration_unfold s1_def [symmetric] images_def [symmetric] texts_def [symmetric]
    by (auto split: sum.splits prod.splits)
  from train_step_frame [OF ts] obtain evs where
    evs: "trace s3 = trace s @ ?sched @ ZeroGrad # evs" "list_all is_compute evs" "model s3 = model s"
      "accum_freq a \<noteq> 1 \<longrightarrow> list_all (\<lambda>e. \<not> is_teacher_forward e) evs"
    using s1 by auto
  note loc = train_step_locals [OF ts]
  from loc have f: "accum_freq a = 1 \<or> accum_freq a > 1" by simp
  have c: "list_all is_compute (ZeroGrad # evs)" using evs by simp
  have t: "accum_freq a \<noteq> 1 \<longrightarrow> list_all (\<lambda>e. \<not> is_teacher_forward e) (ZeroGrad # evs)"
    using evs by simp
  show ?thesis
  proof (cases locals)
    case None
    with fin have "s' = s3" by simp
    with evs have "trace s' = trace s @ (?sched @ (ZeroGrad # evs) @ [])" by simp
    from new_events_append [OF this]
    have ne: "new_events s s' = ?sched @ (ZeroGrad # evs) @ []" .
    from loc None have cont: "accum_freq a \<noteq> 1 \<and> (int i + 1) mod accum_freq a > 0" by simp
    have m: "model s' = model s" using \<open>s' = s3\<close> evs by simp
    show ?thesis
      apply (rule exI [of _ "ZeroGrad # evs"])
      apply (rule exI [of _ "[]"])
      apply (intro conjI)
          apply (rule ne)
         apply (rule c)
        apply (rule t)
       apply (rule f)
      apply (rule disjI1)
      using cont m apply simp
      done
  next
    case (Some l)
    then obtain losses logit_scale last_images where l: "l = (losses, logit_scale, last_images)"
      by (cases l) auto
    with fin Some have
      "finish_step env a dl epoch (nbpe * epoch + int i div accum_freq a)
         (int i div accum_freq a) nbpe last_images losses logit_scale s3 = Inr s'"
      by simp
    from finish_step_frame [OF this] obtain rep where
      rep: "trace s' = trace (finalize env a s3)
             @ (if logit_scale_attr (unwrap_model (model (finalize env a s3))) \<noteq> None
                then [ClampLogitScale False] else [])
             @ rep"
        "list_all (report_of_step a (nbpe * epoch + int i div accum_freq a)) rep"
        "model s' = clamp_unwrapped_logit_scale 0 (ln 100) (model (finalize env a s3))"
        "accum_freq a > 1 \<longrightarrow> accum_images s' = [] \<and> accum_texts s' = [] \<and> accum_features s' = []"
      by blast
    from loc Some have
      "accum_freq a = 1 \<or> (accum_freq a > 1 \<and> \<not> 0 < (int i + 1) mod accum_freq a)"
      by auto
    then have stepping: "accum_freq a = 1 \<or> (int i + 1) mod accum_freq a = 0"
    proof (elim disjE conjE)
      assume "accum_freq a = 1"
      then show ?thesis by simp
    next
      assume gt: "accum_freq a > 1" and n: "\<not> 0 < (int i + 1) mod accum_freq a"
      from gt have "0 \<le> (int i + 1) mod accum_freq a" by simp
      with n have "(int i + 1) mod accum_freq a = 0" by linarith
      then show ?thesis by simp
    qed
    let ?rest = "new_events s3 (finalize env a s3)
                   @ (if logit_scale_attr (unwrap_model (model (finalize env a s3))) \<noteq> None
                      then [ClampLogitScale False] else [])
                   @ rep"
    have "trace (finalize env a s3) = trace s3 @ new_events s3 (finalize env a s3)"
      using finalize_frame [of env a s3] by blast
    with evs(1) rep(1) have "trace s' = trace s @ (?sched @ (ZeroGrad # evs) @ ?rest)"
      by (simp only: append_assoc append_Cons)
    from new_events_append [OF this]
    have ne: "new_events s s' = ?sched @ (ZeroGrad # evs) @ ?rest" .
    have ex: "\<exists>s3' rep'.
                 ?rest = new_events s3' (finalize env a s3')
                   @ (if logit_scale_attr (unwrap_model (model (finalize env a s3'))) \<noteq> None
                      then [ClampLogitScale False] else [])
                   @ rep'
               \<and> list_all (report_of_step a (nbpe * epoch + int i div accum_freq a)) rep'
               \<and> model s3' = model s
               \<and> model s' = clamp_unwrapped_logit_scale 0 (ln 100) (model (finalize env a s3'))
               \<and> (accum_freq a > 1 \<longrightarrow>
                     accum_images s' = [] \<and> accum_texts s' = [] \<and> accum_features s' = [])"
      apply (rule exI [of _ s3])
      apply (rule exI [of _ rep])
      using rep evs(3) by simp
    show ?thesis
      apply (rule exI [of _ "ZeroGrad # evs"])
      apply (rule exI [of _ ?rest])
      apply (intro conjI)
          apply (rule ne)
         apply (rule c)
        apply (rule t)
       apply (rule f)
      apply (rule disjI2)
      apply (rule conjI)
       apply (rule stepping)
      apply (rule ex)
      done
  qed
qed

text \<open>What one iteration adds: the scheduler call, and one optimizer step when it does not continue.\<close>

lemma iteration_projections:
  assumes "iteration env a dl epoch nbpe i batch s = Inr s'"
  shows "scheduler_steps (new_events s s')
           = (if skip_scheduler a then [] else [nbpe * epoch + int i div accum_freq a])"
    and "num_steps (new_events s s')
           = (if accum_freq a = 1 \<or> (int i + 1) mod accum_freq a = 0 then 1 else 0)"
    and "accum_freq a \<noteq> 1 \<Longrightarrow> teacher_forwards (new_events s s') = []"
    and "accum_freq a = 1 \<or> accum_freq a > 1"
proof -
  let ?sched = "if skip_scheduler a then [] else [SchedulerCall (nbpe * epoch + int i div accum_freq a)]"
  from iteration_shape [OF assms] obtain evs rest where
    ne: "new_events s s' = ?sched @ evs @ rest"
    and c: "list_all is_compute evs"
    and t: "accum_freq a \<noteq> 1 \<longrightarrow> list_all (\<lambda>e. \<not> is_teacher_forward e) evs"
    and f: "accum_freq a = 1 \<or> accum_freq a > 1"
    and d: "(accum_freq a \<noteq> 1 \<and> (int i + 1) mod accum_freq a > 0 \<and> rest = [] \<and> model s' = model s)
         \<or> ((accum_freq a = 1 \<or> (int i + 1) mod accum_freq a = 0)
           \<and> (\<exists>s3 rep.
                 rest = new_events s3 (finalize env a s3)
                   @ (if logit_scale_attr (unwrap_model (model (finalize env a s3))) \<noteq> None
                      then [ClampLogitScale False] else [])
                   @ rep
               \<and> list_all (report_of_step a (nbpe * epoch + int i div accum_freq a)) rep
               \<and> model s3 = model s
               \<and> model s' = clamp_unwrapped_logit_scale 0 (ln 100) (model (finalize env a s3))
               \<and> (accum_freq a > 1 \<longrightarrow>
                     accum_images s' = [] \<and> accum_texts s' = [] \<and> accum_features s' = [])))"
    by (elim exE conjE) (rule that)
  define st where "st = (accum_freq a = 1 \<or> (int i + 1) mod accum_freq a = 0)"
  note d = d [folded st_def]
  note cp = compute_events_projections [OF c]
  have sch: "scheduler_steps ?sched = (if skip_scheduler a then [] else [nbpe * epoch + int i div accum_freq a])"
    "num_steps ?sched = 0" "teacher_forwards ?sched = []"
    by (simp_all add: scheduler_steps_def num_steps_def teacher_forwards_def)
  have rest: "scheduler_steps rest = []"
    "num_steps rest = (if accum_freq a = 1 \<or> (int i + 1) mod accum_freq a = 0 then 1 else 0)"
    "teacher_forwards rest = []"
  proof -
    from d show "scheduler_steps rest = []"
    proof (elim disjE conjE exE)
      assume "rest = []" then show ?thesis by (simp add: scheduler_steps_def)
    next
      fix s3 rep
      assume r: "rest = new_events s3 (finalize env a s3)
                   @ (if logit_scale_attr (unwrap_model (model (finalize env a s3))) \<noteq> None
                      then [ClampLogitScale False] else [])
                   @ rep" and rp0: "list_all (report_of_step a (nbpe * epoch + int i div accum_freq a)) rep"
      note rp = reports_of_step_are_reports [OF rp0]
      have "scheduler_steps (if logit_scale_attr (unwrap_model (model (finalize env a s3))) \<noteq> None
                      then [ClampLogitScale False] else []) = []"
        by (simp add: scheduler_steps_def)
      then show ?thesis
        unfolding r using report_events_projections [OF rp] finalize_no_report [of s3 env a]
        by simp
    qed
    from d show "num_steps rest = (if accum_freq a = 1 \<or> (int i + 1) mod accum_freq a = 0 then 1 else 0)"
    proof (elim disjE conjE exE)
      assume "rest = []" "accum_freq a \<noteq> 1" "(int i + 1) mod accum_freq a > 0"
      then show ?thesis by (simp add: num_steps_def)
    next
      fix s3 rep
      assume r: "rest = new_events s3 (finalize env a s3)
                   @ (if logit_scale_attr (unwrap_model (model (finalize env a s3))) \<noteq> None
                      then [ClampLogitScale False] else [])
                   @ rep" and rp0: "list_all (report_of_step a (nbpe * epoch + int i div accum_freq a)) rep"
        and st: st
      note rp = reports_of_step_are_reports [OF rp0]
      have "num_steps (if logit_scale_attr (unwrap_model (model (finalize env a s3))) \<noteq> None
                      then [ClampLogitScale False] else []) = 0"
        by (simp add: num_steps_def)
      then have "num_steps rest = 1"
        unfolding r using report_events_projections [OF rp] num_steps_finalize [of s3 env a]
        by simp
      with st show ?thesis by (simp add: st_def)
    qed
    from d show "teacher_forwards rest = []"
    proof (elim disjE conjE exE)
      assume "rest = []" then show ?thesis by (simp add: teacher_forwards_def)
    next
      fix s3 rep
      assume r: "rest = new_events s3 (finalize env a s3)
                   @ (if logit_scale_attr (unwrap_model (model (finalize env a s3))) \<noteq> None
                      then [ClampLogitScale False] else [])
                   @ rep" and rp0: "list_all (report_of_step a (nbpe * epoch + int i div accum_freq a)) rep"
      note rp = reports_of_step_are_reports [OF rp0]
      have "teacher_forwards (if logit_scale_attr (unwrap_model (model (finalize env a s3))) \<noteq> None
                      then [ClampLogitScale False] else []) = []"
        by (simp add: teacher_forwards_def)
      then show ?thesis
        unfolding r using report_events_projections [OF rp] finalize_no_report [of s3 env a]
        by simp
    qed
  qed
  show "scheduler_steps (new_events s s')
           = (if skip_scheduler a then [] else [nbpe * epoch + int i div accum_freq a])"
    unfolding ne using cp sch rest by simp
  show "num_steps (new_events s s')
           = (if accum_freq a = 1 \<or> (int i + 1) mod accum_freq a = 0 then 1 else 0)"
    unfolding ne using cp sch rest by simp
  show "accum_freq a \<noteq> 1 \<Longrightarrow> teacher_forwards (new_events s s') = []"
    unfolding ne using t sch rest no_teacher_events [of evs]
    by simp
  show "accum_freq a = 1 \<or> accum_freq a > 1" by (rule f)
qed

subsection \<open>The clamp of the logit scale\<close>

lemma model_finalize: "\<exists>tr. model (finalize env a s) = optimizer_update env tr (model s)"
  by (auto simp: finalize_def apply_step_def clip_if_configured_def split: option.splits)

lemma clamp_after_step:
  assumes "iteration env a dl epoch nbpe i batch s = Inr s'"
  shows "num_steps (new_events s s') \<le> 1
       \<and> (num_steps (new_events s s') = 1 \<longrightarrow>
            logit_scale_clamped (model s')
          \<and> (\<exists>tr. model s' = clamp_unwrapped_logit_scale 0 (ln 100) (optimizer_update env tr (model s)))
          \<and> (logit_scale_attr (unwrap_model (model s')) \<noteq> None \<longrightarrow>
               (\<exists>pre post. new_events s s' = pre @ [ClampLogitScale False] @ post
                  \<and> num_steps pre = 1 \<and> num_steps post = 0)))"
proof (intro conjI impI)
  show "num_steps (new_events s s') \<le> 1"
    using iteration_projections(2) [OF assms] by simp
next
  assume one: "num_steps (new_events s s') = 1"
  let ?sched = "if skip_scheduler a then [] else [SchedulerCall (nbpe * epoch + int i div accum_freq a)]"
  define st where "st = (accum_freq a = 1 \<or> (int i + 1) mod accum_freq a = 0)"
  have st: st
  proof (rule ccontr)
    assume "\<not> st"
    then have "num_steps (new_events s s') = 0"
      using iteration_projections(2) [OF assms] by (simp add: st_def)
    with one show False by simp
  qed
  from iteration_shape [OF assms] obtain evs rest where
    ne: "new_events s s' = ?sched @ evs @ rest"
    and c: "list_all is_compute evs"
    and d: "(accum_freq a \<noteq> 1 \<and> (int i + 1) mod accum_freq a > 0 \<and> rest = [] \<and> model s' = model s)
         \<or> ((accum_freq a = 1 \<or> (int i + 1) mod accum_freq a = 0)
           \<and> (\<exists>s3 rep.
                 rest = new_events s3 (finalize env a s3)
                   @ (if logit_scale_attr (unwrap_model (model (finalize env a s3))) \<noteq> None
                      then [ClampLogitScale False] else [])
                   @ rep
               \<and> list_all (report_of_step a (nbpe * epoch + int i div accum_freq a)) rep
               \<and> model s3 = model s
               \<and> model s' = clamp_unwrapped_logit_scale 0 (ln 100) (model (finalize env a s3))
               \<and> (accum_freq a > 1 \<longrightarrow>
                     accum_images s' = [] \<and> accum_texts s' = [] \<and> accum_features s' = [])))"
    by (elim exE conjE) (rule that)
  note d = d [folded st_def]
  from d st obtain s3 rep where
    rest: "rest = new_events s3 (finalize env a s3)
                   @ (if logit_scale_attr (unwrap_model (model (finalize env a s3))) \<noteq> None
                      then [ClampLogitScale False] else [])
                   @ rep"
    and rp0: "list_all (report_of_step a (nbpe * epoch + int i div accum_freq a)) rep"
    and m3: "model s3 = model s"
    and m': "model s' = clamp_unwrapped_logit_scale 0 (ln 100) (model (finalize env a s3))"
    by (elim disjE exE conjE) (simp_all add: st_def)
  note rp = reports_of_step_are_reports [OF rp0]
  show "logit_scale_clamped (model s')"
    unfolding m' by (rule clamp_unwrapped_clamped)
  from model_finalize [of env a s3] m3
  show "\<exists>tr. model s' = clamp_unwrapped_logit_scale 0 (ln 100) (optimizer_update env tr (model s))"
    unfolding m' by auto
  assume "logit_scale_attr (unwrap_model (model s')) \<noteq> None"
  then have attr: "logit_scale_attr (unwrap_model (model (finalize env a s3))) \<noteq> None"
    unfolding m' clamp_unwrapped_value by simp
  have pre: "num_steps (?sched @ evs @ new_events s3 (finalize env a s3)) = 1"
    using compute_events_projections [OF c] num_steps_finalize [of s3 env a]
    by (simp add: num_steps_def)
  have post: "num_steps rep = 0"
    using report_events_projections [OF rp] by simp
  have "new_events s s' = (?sched @ evs @ new_events s3 (finalize env a s3)) @ [ClampLogitScale False] @ rep"
    unfolding ne rest using attr by simp
  with pre post
  show "\<exists>pre post. new_events s s' = pre @ [ClampLogitScale False] @ post
                  \<and> num_steps pre = 1 \<and> num_steps post = 0"
    by blast
qed


lemma clamp_unwrapped_explicit:
  "logit_scale_attr (unwrap_model (clamp_unwrapped_logit_scale lo hi m))
     = map_option (\<lambda>v. min (max v lo) hi) (logit_scale_attr (unwrap_model m))
   \<and> params (unwrap_model (clamp_unwrapped_logit_scale lo hi m)) = params (unwrap_model m)
   \<and> (logit_scale_attr (unwrap_model m) = None \<longrightarrow> clamp_unwrapped_logit_scale lo hi m = m)"
  by (cases m)
     (auto simp: clamp_unwrapped_logit_scale_def unwrap_model_def clamp_def split: option.splits)

lemma ln_100_bounds: "0 \<le> ln (100::real)" "2 \<le> ln (100::real)" "ln (100::real) \<le> 100"
proof -
  show "0 \<le> ln (100::real)" by simp
  have e: "exp 1 \<le> (3::real)" by (rule exp_le)
  have "exp (2::real) = exp 1 * exp 1" by (simp flip: exp_add)
  also have "\<dots> \<le> 3 * 3" using e by (intro mult_mono) simp_all
  finally have "exp 2 \<le> (100::real)" by simp
  then show "2 \<le> ln (100::real)" by (simp add: ln_ge_iff)
  have "ln (100::real) \<le> 100 - 1" by (rule ln_le_minus_one) simp
  then show "ln (100::real) \<le> 100" by simp
qed

text \<open>
  C4. An iteration takes at most one optimizer step. When it takes one, the model it
  leaves is the optimizer's result with \<open>logit_scale\<close> clamped, whatever update the
  optimizer made: when the unwrapped model of the optimizer's result has a \<open>logit_scale\<close>
  of value \<open>v\<close>, the unwrapped model has afterwards the \<open>logit_scale\<close>
  \<open>min (max v 0) (ln 100)\<close>, so a value in \<open>[0, ln 100]\<close> is kept, a value below becomes
  \<open>0\<close> and a value above becomes \<open>ln 100\<close>; its other parameters are the
  optimizer's; a model without \<open>logit_scale\<close> is left as the optimizer made it. The
  clamp is an event with gradient tracking off that stands after the step. (The
  values are real numbers.)
\<close>

theorem logit_scale_clamped_after_optimizer_step:
  "case iteration env a dl epoch nbpe i batch s of
     Inl e \<Rightarrow> True
   | Inr s' \<Rightarrow>
       num_steps (new_events s s') \<le> 1
     \<and> (num_steps (new_events s s') = 1 \<longrightarrow>
          (\<exists>tr. logit_scale_attr (unwrap_model (model s'))
                   = map_option (\<lambda>v. min (max v 0) (ln 100))
                       (logit_scale_attr (unwrap_model (optimizer_update env tr (model s))))
               \<and> params (unwrap_model (model s'))
                   = params (unwrap_model (optimizer_update env tr (model s)))
               \<and> (logit_scale_attr (unwrap_model (optimizer_update env tr (model s))) = None
                    \<longrightarrow> model s' = optimizer_update env tr (model s))
               \<and> model s' = clamp_unwrapped_logit_scale 0 (ln 100) (optimizer_update env tr (model s)))
        \<and> logit_scale_clamped (model s')
        \<and> (logit_scale_attr (unwrap_model (model s')) \<noteq> None \<longrightarrow>
             (\<exists>pre post. new_events s s' = pre @ [ClampLogitScale False] @ post
                \<and> num_steps pre = 1 \<and> num_steps post = 0)))"
proof (cases "iteration env a dl epoch nbpe i batch s")
  case (Inl e)
  then show ?thesis by simp
next
  case (Inr s')
  note c = clamp_after_step [OF Inr]
  have "\<exists>tr. logit_scale_attr (unwrap_model (model s'))
                   = map_option (\<lambda>v. min (max v 0) (ln 100))
                       (logit_scale_attr (unwrap_model (optimizer_update env tr (model s))))
               \<and> params (unwrap_model (model s'))
                   = params (unwrap_model (optimizer_update env tr (model s)))
               \<and> (logit_scale_attr (unwrap_model (optimizer_update env tr (model s))) = None
                    \<longrightarrow> model s' = optimizer_update env tr (model s))
               \<and> model s' = clamp_unwrapped_logit_scale 0 (ln 100) (optimizer_update env tr (model s))"
    if one: "num_steps (new_events s s') = 1"
  proof -
    from c one obtain tr where
      m: "model s' = clamp_unwrapped_logit_scale 0 (ln 100) (optimizer_update env tr (model s))"
      by blast
    show ?thesis
      apply (rule exI [of _ tr])
      unfolding m using clamp_unwrapped_explicit [of 0 "ln 100" "optimizer_update env tr (model s)"]
      by simp
  qed
  with c show ?thesis
    unfolding Inr by simp
qed

lemmas demo_defs = demo_env_def demo_args_def demo_state_def demo_data_def

lemmas loop_defs = iteration_unfold update_def reset_def Let_def during_training_data_preprocess_def
     train_step_def forward_backward_def emit_def dict_setitem_def dict_values_def backward_def
     py_sum_def
     finish_step_def finalize_def apply_step_def clip_if_configured_def clamp_logit_scale_def
     unwrap_model_def clamp_unwrapped_logit_scale_def clamp_def time_time_def
     log_progress_def dict_contains_def dict_update_def save_checkpoint_def

theorem logit_scale_clamped_after_optimizer_step_witness:
  "(case iteration demo_env (demo_args\<lparr>accum_freq := 1, save_logs := False\<rparr>) demo_data 0 4 0
          ([1, 2], [1, 2]) demo_state of
     Inl e \<Rightarrow> False
   | Inr s' \<Rightarrow>
       num_steps (new_events demo_state s') = 1
     \<and> optimizer_update demo_env [] (model demo_state) = PyModel None (Some (- 3)) ()
     \<and> model s' = PyModel None (Some 0) ()
     \<and> logit_scale_clamped (model s'))
 \<and> (case iteration (demo_optimizer (PyModel None (Some 100) ()))
          (demo_args\<lparr>accum_freq := 1, save_logs := False\<rparr>) demo_data 0 4 0
          ([1, 2], [1, 2]) demo_state of
     Inl e \<Rightarrow> False
   | Inr s' \<Rightarrow>
       num_steps (new_events demo_state s') = 1
     \<and> model s' = PyModel None (Some (ln 100)) ())
 \<and> (case iteration (demo_optimizer (PyModel None (Some 2) ()))
          (demo_args\<lparr>accum_freq := 1, save_logs := False\<rparr>) demo_data 0 4 0
          ([1, 2], [1, 2]) demo_state of
     Inl e \<Rightarrow> False
   | Inr s' \<Rightarrow>
       num_steps (new_events demo_state s') = 1
     \<and> model s' = PyModel None (Some 2) ())
 \<and> (case iteration (demo_optimizer (PyModel (Some (PyModel None (Some 100) ())) None ()))
          (demo_args\<lparr>accum_freq := 1, save_logs := False\<rparr>) demo_data 0 4 0
          ([1, 2], [1, 2]) demo_state of
     Inl e \<Rightarrow> False
   | Inr s' \<Rightarrow>
       num_steps (new_events demo_state s') = 1
     \<and> model s' = PyModel (Some (PyModel None (Some (ln 100)) ())) None ())"
  using logit_scale_clamped_after_optimizer_step [where env = demo_env
      and a = "demo_args\<lparr>accum_freq := 1, save_logs := False\<rparr>" and dl = demo_data
      and epoch = 0 and nbpe = 4 and i = 0 and batch = "([1, 2], [1, 2])" and s = demo_state]
    logit_scale_clamped_after_optimizer_step [where env = "demo_optimizer (PyModel None (Some 100) ())"
      and a = "demo_args\<lparr>accum_freq := 1, save_logs := False\<rparr>" and dl = demo_data
      and epoch = 0 and nbpe = 4 and i = 0 and batch = "([1, 2], [1, 2])" and s = demo_state]
    logit_scale_clamped_after_optimizer_step [where env = "demo_optimizer (PyModel None (Some 2) ())"
      and a = "demo_args\<lparr>accum_freq := 1, save_logs := False\<rparr>" and dl = demo_data
      and epoch = 0 and nbpe = 4 and i = 0 and batch = "([1, 2], [1, 2])" and s = demo_state]
    logit_scale_clamped_after_optimizer_step
      [where env = "demo_optimizer (PyModel (Some (PyModel None (Some 100) ())) None ())"
      and a = "demo_args\<lparr>accum_freq := 1, save_logs := False\<rparr>" and dl = demo_data
      and epoch = 0 and nbpe = 4 and i = 0 and batch = "([1, 2], [1, 2])" and s = demo_state]
    ln_100_bounds
  by (simp add: loop_defs demo_defs demo_optimizer_def num_steps_def new_events_def
        logit_scale_clamped_def)

subsection \<open>The clip for the LIFT models\<close>

lemma clip_norms_append [simp]: "clip_norms (xs @ ys) = clip_norms xs @ clip_norms ys"
  by (simp add: clip_norms_def)

lemma clip_norms_finalize:
  "clip_norms (new_events s (finalize env a s)) = (case grad_clip_norm a of Some c \<Rightarrow> [c] | None \<Rightarrow> [])"
  by (simp add: new_events_finalize clip_norms_def split: option.splits)

lemma map_of_dict_update_other:
  "k \<notin> fst ` set e \<Longrightarrow> map_of (dict_update d e) k = map_of d k"
  unfolding dict_update_def
  by (induction e arbitrary: d) (auto simp: dict_setitem_def update_conv')

lemma dict_contains_dist_prefixed:
  "dict_contains (dict_update d (map (\<lambda>(k, v). (''dist_'' @ k, v)) e)) ''output_dict''
     = dict_contains d ''output_dict''"
proof -
  have "''output_dict'' \<notin> fst ` set (map (\<lambda>(k, v). (''dist_'' @ k, v)) e)"
    by auto
  from map_of_dict_update_other [OF this] show ?thesis
    by (simp add: dict_contains_def)
qed

lemma forward_backward_errors:
  assumes "forward_backward env a images texts s = Inl e"
  shows "(e = TypeError ''output_dict''
            \<and> dict_contains (model_call env (model s) True images texts) ''output_dict'')
       \<or> (e = AttributeError ''backward'' \<and> (\<exists>kwargs. loss_call env kwargs = []))"
  using assms dict_contains_dist_prefixed
      [of "model_call env (model s) True images texts" "dist_model_call env images texts"]
  by (auto simp: forward_backward_def Let_def backward_py_sum_Inl backward_py_sum dict_values_def
        split: if_splits sum.splits)

text \<open>
  C5. On the non-accumulating path (\<open>accum_freq = 1\<close>), when the model name contains
  \<open>LIFT\<close>, the step raises only at the loss call, when the model's output has a key
  \<open>output_dict\<close>, or at the backward call, when the loss function returned no component.
  Otherwise it returns, and its last two events are the backward call and a clip to
  norm 1, the only clip of the block, whatever \<open>grad_clip_norm\<close> is. Through the
  finalization that follows, the clips are that clip to 1 and then, when
  \<open>grad_clip_norm\<close> is set, the clip to the configured norm: both are applied.
\<close>

theorem lift_clip_independent_of_grad_clip_norm:
  assumes "accum_freq a = 1" and "str_contains ''LIFT'' (model_name a)"
  shows "case train_step env a i images texts s of
           Inl e \<Rightarrow>
             (e = TypeError ''output_dict''
                \<and> dict_contains (model_call env (model s) True images texts) ''output_dict'')
           \<or> (e = AttributeError ''backward'' \<and> (\<exists>kwargs. loss_call env kwargs = []))
         | Inr (s1, locals) \<Rightarrow>
             locals \<noteq> None
           \<and> (\<exists>pre v. new_events s s1 = pre @ [Backward (has_scaler env) v, ClipGradNorm 1]
                  \<and> clip_norms pre = [])
           \<and> clip_norms (new_events s (finalize env a s1))
               = 1 # (case grad_clip_norm a of Some c \<Rightarrow> [c] | None \<Rightarrow> [])"
proof (cases "forward_backward env a images texts s")
  case (Inl e)
  then have ts: "train_step env a i images texts s = Inl e"
    using assms(1) by (simp add: train_step_def)
  from forward_backward_errors [OF Inl] show ?thesis
    unfolding ts by simp
next
  case (Inr r)
  obtain s1 losses ls where r: "r = (s1, losses, ls)"
    by (cases r) auto
  note fb = Inr [unfolded r]
  have ts: "train_step env a i images texts s = Inr (s1, Some (losses, ls, images))"
    using assms(1) fb by (simp add: train_step_def)
  from fb assms(2) obtain pre v where
    tr: "trace s1 = trace s @ pre @ [Backward (has_scaler env) v, ClipGradNorm 1]"
    and pre: "clip_norms pre = []"
    by (auto simp: forward_backward_def Let_def backward_py_sum clip_norms_def
          split: if_splits sum.splits)
  from tr have ne: "new_events s s1 = pre @ [Backward (has_scaler env) v, ClipGradNorm 1]"
    by (simp add: new_events_def)
  define fe where "fe = new_events s1 (finalize env a s1)"
  have "trace (finalize env a s1) = trace s1 @ fe"
    unfolding fe_def using finalize_frame [of env a s1] by blast
  with tr have "trace (finalize env a s1)
      = trace s @ (pre @ [Backward (has_scaler env) v, ClipGradNorm 1] @ fe)"
    by simp
  from new_events_append [OF this] have "clip_norms (new_events s (finalize env a s1))
               = 1 # (case grad_clip_norm a of Some c \<Rightarrow> [c] | None \<Rightarrow> [])"
    using pre clip_norms_finalize [of s1 env a, folded fe_def]
    by (simp add: clip_norms_def)
  with ne pre show ?thesis unfolding ts by auto
qed

theorem lift_clip_independent_of_grad_clip_norm_witness:
  "accum_freq (demo_args\<lparr>accum_freq := 1, grad_clip_norm := Some 5\<rparr>) = 1
   \<and> str_contains ''LIFT'' (model_name (demo_args\<lparr>accum_freq := 1, grad_clip_norm := Some 5\<rparr>))
   \<and> (case train_step demo_env (demo_args\<lparr>accum_freq := 1, grad_clip_norm := Some 5\<rparr>) 0
              [1, 2] [1, 2] demo_state of
         Inl e \<Rightarrow> False
       | Inr (s1, locals) \<Rightarrow>
           clip_norms (new_events demo_state s1) = [1]
         \<and> clip_norms (new_events demo_state
               (finalize demo_env (demo_args\<lparr>accum_freq := 1, grad_clip_norm := Some 5\<rparr>) s1)) = [1, 5])"
  using lift_clip_independent_of_grad_clip_norm [where env = demo_env
      and a = "demo_args\<lparr>accum_freq := 1, grad_clip_norm := Some 5\<rparr>" and i = 0
      and images = "[1, 2]" and texts = "[1, 2]" and s = demo_state]
  by (simp add: loop_defs demo_defs clip_norms_def new_events_def)

text \<open>
  The two error paths of the block, on the small instance: a loss function that
  returns no component, and a model whose output has a key \<open>output_dict\<close>.
\<close>

lemma forward_backward_raises:
  "forward_backward (demo_env\<lparr>loss_call := (\<lambda>kwargs. [])\<rparr>) demo_args [1, 2] [1, 2] demo_state
     = Inl (AttributeError ''backward'')
   \<and> forward_backward (demo_env\<lparr>model_call := (\<lambda>m g images texts. [(''output_dict'', texts)])\<rparr>)
       demo_args [1, 2] [1, 2] demo_state
     = Inl (TypeError ''output_dict'')"
  by (simp add: forward_backward_def demo_defs backward_def py_sum_def dict_values_def
        dict_contains_def emit_def Let_def)

subsection \<open>The whole epoch\<close>

lemma iteration_prefix:
  assumes "iteration env a dl epoch nbpe i batch s = Inr s'"
  shows "trace s' = trace s @ new_events s s'"
proof -
  define s1 where "s1 = (if \<not> skip_scheduler a
      then emit (SchedulerCall (nbpe * epoch + int i div accum_freq a)) s else s)"
  have s1: "\<exists>evs. trace s1 = trace s @ evs"
    by (simp add: s1_def)
  define images where "images = fst (during_training_data_preprocess env a (fst batch) (snd batch))"
  define texts where "texts = snd (during_training_data_preprocess env a (fst batch) (snd batch))"
  from assms obtain dm s3 locals where
    ts: "train_step env a i images texts
           (emit ZeroGrad (s1\<lparr>ticks := Suc (ticks s), data_time_m := dm\<rparr>)) = Inr (s3, locals)"
    and fin: "(case locals of
                 None \<Rightarrow> Inr s3
               | Some (losses, logit_scale, last_images) \<Rightarrow>
                   finish_step env a dl epoch (nbpe * epoch + int i div accum_freq a)
                     (int i div accum_freq a) nbpe last_images losses logit_scale s3) = Inr s'"
    unfolding iteration_unfold s1_def [symmetric] images_def [symmetric] texts_def [symmetric]
    by (auto split: sum.splits prod.splits)
  from train_step_frame [OF ts] s1 have s3: "\<exists>evs. trace s3 = trace s @ evs"
    by auto
  have "\<exists>evs. trace s' = trace s @ evs"
  proof (cases locals)
    case None
    with fin s3 show ?thesis by simp
  next
    case (Some l)
    then obtain losses logit_scale last_images where l: "l = (losses, logit_scale, last_images)"
      by (cases l) auto
    with fin Some have
      "finish_step env a dl epoch (nbpe * epoch + int i div accum_freq a)
         (int i div accum_freq a) nbpe last_images losses logit_scale s3 = Inr s'"
      by simp
    from finish_step_frame [OF this] obtain evs where
      "trace s' = trace (finalize env a s3) @ evs" by auto
    moreover have "trace (finalize env a s3) = trace s3 @ new_events s3 (finalize env a s3)"
      using finalize_frame [of env a s3] by blast
    ultimately show ?thesis using s3 by auto
  qed
  then show ?thesis by (auto simp: new_events_def)
qed

lemma new_events_trans:
  "trace s1 = trace s @ new_events s s1 \<Longrightarrow> trace s2 = trace s1 @ new_events s1 s2
   \<Longrightarrow> trace s2 = trace s @ new_events s s2 \<and> new_events s s2 = new_events s s1 @ new_events s1 s2"
  by (metis append.assoc new_events_append)

lemma epoch_loop_projections:
  assumes "epoch_loop env a dl epoch nbpe ibs s = Inr s'"
  shows "trace s' = trace s @ new_events s s'
       \<and> scheduler_steps (new_events s s')
           = (if skip_scheduler a then []
              else map (\<lambda>ib. nbpe * epoch + int (fst ib) div accum_freq a) ibs)
       \<and> num_steps (new_events s s')
           = length (filter (\<lambda>ib. accum_freq a = 1 \<or> (int (fst ib) + 1) mod accum_freq a = 0) ibs)
       \<and> (accum_freq a \<noteq> 1 \<longrightarrow> teacher_forwards (new_events s s') = [])
       \<and> (ibs \<noteq> [] \<longrightarrow> accum_freq a = 1 \<or> accum_freq a > 1)"
  using assms
proof (induction ibs arbitrary: s)
  case Nil
  then show ?case
    by (simp add: new_events_def scheduler_steps_def num_steps_def teacher_forwards_def)
next
  case (Cons ib ibs)
  obtain i batch where ib: "ib = (i, batch)" by (cases ib) auto
  from Cons.prems ib obtain s1 where
    it: "iteration env a dl epoch nbpe i batch s = Inr s1"
    and rest: "epoch_loop env a dl epoch nbpe ibs s1 = Inr s'"
    by (auto split: sum.splits)
  note p1 = iteration_prefix [OF it]
  note j = iteration_projections [OF it]
  from Cons.IH [OF rest] have
    p2: "trace s' = trace s1 @ new_events s1 s'"
    and sch: "scheduler_steps (new_events s1 s')
           = (if skip_scheduler a then []
              else map (\<lambda>ib. nbpe * epoch + int (fst ib) div accum_freq a) ibs)"
    and ns: "num_steps (new_events s1 s')
           = length (filter (\<lambda>ib. accum_freq a = 1 \<or> (int (fst ib) + 1) mod accum_freq a = 0) ibs)"
    and tf: "accum_freq a \<noteq> 1 \<longrightarrow> teacher_forwards (new_events s1 s') = []"
    by simp_all
  from new_events_trans [OF p1 p2] have
    p: "trace s' = trace s @ new_events s s'"
    and ne: "new_events s s' = new_events s s1 @ new_events s1 s'"
    by simp_all
  show ?case
    unfolding ne using p ne j sch ns tf ib
    by (auto simp: ne)
qed

lemma takes_step_nat:
  assumes "accum_freq a \<ge> 1"
  shows "takes_optimizer_step a i = (Suc i mod nat (accum_freq a) = 0)"
proof -
  have "(int i + 1) mod accum_freq a = int (Suc i mod nat (accum_freq a))"
    using assms by (simp add: zmod_int add.commute)
  then have "((int i + 1) mod accum_freq a = 0) = (Suc i mod nat (accum_freq a) = 0)"
    by simp
  moreover have "accum_freq a = 1 \<Longrightarrow> Suc i mod nat (accum_freq a) = 0" by simp
  ultimately show ?thesis unfolding takes_optimizer_step_def by auto
qed

lemma count_steps:
  assumes "accum_freq a \<ge> 1"
  shows "length (filter (takes_optimizer_step a) [0..<B]) = B div nat (accum_freq a)"
proof (induction B)
  case 0
  then show ?case by simp
next
  case (Suc B)
  show ?case
    using Suc takes_step_nat [OF assms, of B]
    by (simp add: div_Suc)
qed

lemma step_values_epoch:
  assumes "accum_freq a \<ge> 1"
  shows "map (\<lambda>i. int i div accum_freq a) (filter (takes_optimizer_step a) [0..<B])
           = map int [0..<B div nat (accum_freq a)]"
proof (induction B)
  case 0
  then show ?case by simp
next
  case (Suc B)
  let ?n = "nat (accum_freq a)"
  have n: "?n > 0" "accum_freq a = int ?n" using assms by simp_all
  show ?case
  proof (cases "Suc B mod ?n = 0")
    case True
    have "int B div accum_freq a = int (B div ?n)"
      using n by (metis zdiv_int)
    with True Suc show ?thesis
      using takes_step_nat [OF assms, of B] by (simp add: div_Suc)
  next
    case False
    with Suc show ?thesis
      using takes_step_nat [OF assms, of B] by (simp add: div_Suc)
  qed
qed

lemma concat_blocks: "concat (map (\<lambda>e. map (\<lambda>k. int n * int e + int k) [0..<n]) [0..<E]) = map int [0..<E * n]"
proof (induction E)
  case 0
  then show ?case by simp
next
  case (Suc E)
  have "map (\<lambda>k. int n * int E + int k) [0..<n] = map int [E * n..<E * n + n]"
    by (simp add: map_add_upt [symmetric] mult.commute add.commute del: map_add_upt)
  moreover have "[0..<Suc E * n] = [0..<E * n] @ [E * n..<E * n + n]"
    by (metis add.commute le_add2 mult_Suc upt_add_eq_append add.left_neutral)
  ultimately show ?case using Suc by simp
qed

lemma run_step_values_consecutive:
  assumes "accum_freq a \<ge> 1" and "num_batches dl = int (length (batches dl))"
  shows "run_step_values a dl epochs = map int [0..<epochs * (length (batches dl) div nat (accum_freq a))]"
proof -
  let ?B = "length (batches dl)"
  let ?n = "?B div nat (accum_freq a)"
  have nb: "num_batches dl div accum_freq a = int ?n"
    using assms by (metis int_nat_eq zdiv_int zero_le_one order_trans)
  have "\<And>e. map (step_counter a dl (int e)) (filter (takes_optimizer_step a) [0..<?B])
        = map (\<lambda>k. int ?n * int e + int k) [0..<?n]"
  proof -
    fix e
    have "map (step_counter a dl (int e)) (filter (takes_optimizer_step a) [0..<?B])
        = map (\<lambda>v. int ?n * int e + v) (map (\<lambda>i. int i div accum_freq a) (filter (takes_optimizer_step a) [0..<?B]))"
      by (simp add: step_counter_def nb)
    also have "\<dots> = map (\<lambda>v. int ?n * int e + v) (map int [0..<?n])"
      by (simp only: step_values_epoch [OF assms(1)])
    finally show "map (step_counter a dl (int e)) (filter (takes_optimizer_step a) [0..<?B])
        = map (\<lambda>k. int ?n * int e + int k) [0..<?n]"
      by simp
  qed
  then show ?thesis
    unfolding run_step_values_def using concat_blocks [of ?n epochs] by simp
qed


end
